theory Spec2Isabelle
  imports Complex_Main "HOL-Library.Sublist"
begin

section \<open>JavaScript values used by the rule engine\<close>

text \<open>
  A JavaScript number is an IEEE double: \<open>NaN\<close>, one of the two infinities, or a finite
  double, \<open>Fin q\<close> with \<open>q\<close> the rational it denotes (both zeros are \<open>Fin 0\<close>; nothing
  below tells them apart). A YAML document gives the infinities as \<open>.inf\<close> and \<open>-.inf\<close>.
\<close>

datatype jsnum = NaN | PInf | NInf | Fin rat

text \<open>\<open>a >= b\<close>: false as soon as one side is \<open>NaN\<close>.\<close>

fun jge :: "jsnum \<Rightarrow> jsnum \<Rightarrow> bool" where
  "jge NaN y = False"
| "jge x NaN = False"
| "jge PInf y = True"
| "jge x NInf = True"
| "jge NInf y = False"
| "jge x PInf = False"
| "jge (Fin a) (Fin b) = (b \<le> a)"

text \<open>\<open>a === b\<close> on numbers: \<open>NaN\<close> is not equal to itself.\<close>

fun jeq :: "jsnum \<Rightarrow> jsnum \<Rightarrow> bool" where
  "jeq NaN y = False"
| "jeq x NaN = False"
| "jeq x y = (x = y)"

text \<open>Truthiness of a number (\<open>if (w)\<close>, \<open>x || 0\<close>): \<open>0\<close> and \<open>NaN\<close> are falsy.\<close>

fun truthy :: "jsnum \<Rightarrow> bool" where
  "truthy NaN = False"
| "truthy PInf = True"
| "truthy NInf = True"
| "truthy (Fin a) = (a \<noteq> 0)"

fun isFinite :: "jsnum \<Rightarrow> bool" where
  "isFinite (Fin a) = True"
| "isFinite x = False"

text \<open>
  The scalar values a YAML document can put where a weight is expected. A property that is
  absent (\<open>undefined\<close>) is \<open>None\<close> of an option; \<open>null\<close> is \<open>Some JNull\<close>.
\<close>

datatype jsval = JNull | JBool bool | JNum jsnum | JStr string

text \<open>
  The built-ins of the JavaScript engine that the code calls and that are not part of the
  repository: \<open>new RegExp(p)\<close>, which throws a SyntaxError on malformed pattern text
  (\<open>None\<close>) and otherwise gives the predicate \<open>re.test\<close> (a regular expression without
  flags keeps no state between tests); the conversion of a string to a number; and the
  rounding of IEEE arithmetic, which takes the exact sum of two finite doubles to the
  nearest double, or to no finite double at all when the sum overflows (\<open>None\<close>).
\<close>

type_synonym regexp = "string \<Rightarrow> bool"

record js =
  RegExp :: "string \<Rightarrow> regexp option"
  StringToNumber :: "string \<Rightarrow> jsnum"
  roundToDouble :: "rat \<Rightarrow> rat option"

text \<open>
  \<open>a + b\<close> on numbers, as IEEE addition: \<open>NaN\<close> is absorbing, infinities of opposite sign
  add to \<open>NaN\<close>, an infinity absorbs every finite number, adding zero changes nothing, and
  any other sum of finite numbers is rounded, to an infinity when it overflows.
\<close>

fun jadd :: "js \<Rightarrow> jsnum \<Rightarrow> jsnum \<Rightarrow> jsnum" where
  "jadd E NaN y = NaN"
| "jadd E x NaN = NaN"
| "jadd E PInf NInf = NaN"
| "jadd E NInf PInf = NaN"
| "jadd E PInf y = PInf"
| "jadd E x PInf = PInf"
| "jadd E NInf y = NInf"
| "jadd E x NInf = NInf"
| "jadd E (Fin a) (Fin b) =
     (if b = 0 then Fin a
      else if a = 0 then Fin b
      else case roundToDouble E (a + b) of
             Some q \<Rightarrow> Fin q
           | None \<Rightarrow> if 0 < a + b then PInf else NInf)"

datatype error = SyntaxError

text \<open>\<open>Number(v)\<close> on a scalar.\<close>

fun Number :: "js \<Rightarrow> jsval \<Rightarrow> jsnum" where
  "Number E JNull = Fin 0"
| "Number E (JBool b) = (if b then Fin 1 else Fin 0)"
| "Number E (JNum n) = n"
| "Number E (JStr s) = StringToNumber E s"

text \<open>\<open>v ?? d\<close>: the default replaces both \<open>undefined\<close> and \<open>null\<close>.\<close>

fun nullish :: "jsval option \<Rightarrow> jsval \<Rightarrow> jsval" where
  "nullish None d = d"
| "nullish (Some JNull) d = d"
| "nullish (Some v) d = v"

text \<open>\<open>Number(v) || 0\<close>: a falsy number (\<open>0\<close> or \<open>NaN\<close>) becomes \<open>0\<close>.\<close>

definition numberOr0 :: "js \<Rightarrow> jsval \<Rightarrow> jsnum" where
  "numberOr0 E v = (if truthy (Number E v) then Number E v else Fin 0)"

text \<open>\<open>Boolean(s)\<close> on a string: only the empty string is falsy.\<close>

fun truthyStr :: "string \<Rightarrow> bool" where
  "truthyStr [] = False"
| "truthyStr (c # cs) = True"

text \<open>\<open>xs ?? []\<close> and \<open>obj ?? {}\<close> on a sequence or mapping that may be absent.\<close>

fun orEmpty :: "'a list option \<Rightarrow> 'a list" where
  "orEmpty None = []"
| "orEmpty (Some xs) = xs"

text \<open>\<open>new RegExp(p)\<close> as a fallible step.\<close>

definition newRegExp :: "js \<Rightarrow> string \<Rightarrow> error + regexp" where
  "newRegExp E p = (case RegExp E p of None \<Rightarrow> Inl SyntaxError | Some r \<Rightarrow> Inr r)"

text \<open>\<open>Array.prototype.map\<close> with a callback that may throw: left to right, the first throw ends it.\<close>

fun mapE :: "('a \<Rightarrow> error + 'b) \<Rightarrow> 'a list \<Rightarrow> error + 'b list" where
  "mapE f [] = Inr []"
| "mapE f (x # xs) =
     (case f x of
        Inl e \<Rightarrow> Inl e
      | Inr y \<Rightarrow> (case mapE f xs of Inl e \<Rightarrow> Inl e | Inr ys \<Rightarrow> Inr (y # ys)))"

section \<open>Rule configuration (\<open>readRules\<close>)\<close>

text \<open>
  The rule document as \<open>yaml.load\<close> returns it: every section, and every property of a
  section, may be absent. A mapping from keys to weights is the list of its entries in the
  order of \<open>Object.entries\<close>; a key is looked up with \<open>map_of\<close>.
  The window section is \<open>{type, value}\<close> in the source; its fields are named
  \<open>wtype\<close> and \<open>wvalue\<close> here, and the \<open>keywords\<close> of a guide mapping are
  \<open>keywordPatterns\<close>.
\<close>

record window =
  wtype :: string
  wvalue :: "jsval option"

record decision =
  threshold :: "jsval option"

record strongSignals =
  patterns :: "string list option"

record scoring =
  labelWeights :: "(string \<times> jsval) list option"
  textKeywordWeights :: "(string \<times> jsval) list option"
  pathWeights :: "(string \<times> jsval) list option"

record guideMapping =
  tag :: string
  scoreBonus :: "jsval option"
  keywordPatterns :: "string list option"
  paths :: "string list option"

record rulesDoc =
  doc_window :: "window option"
  doc_decision :: "decision option"
  doc_strongSignals :: "strongSignals option"
  doc_scoring :: "scoring option"
  doc_securityGuideMapping :: "guideMapping list option"

text \<open>
  The object \<open>readRules\<close> returns. \<open>scoreOne\<close> reads \<open>rules.decision\<close>,
  \<open>rules.strongSignals\<close> and \<open>rules.scoring\<close> without a guard, so they are present here;
  it guards \<open>rules.securityGuideMapping\<close> with \<open>??\<close> and \<open>main\<close> guards \<open>rules.window\<close>
  with \<open>?.\<close>, so these two stay optional.
\<close>

record rules =
  window :: "window option"
  decision :: decision
  strongSignals :: strongSignals
  scoring :: scoring
  securityGuideMapping :: "guideMapping list option"

text \<open>\<open>x ??= d\<close> on a section.\<close>

fun orDefault :: "'a option \<Rightarrow> 'a \<Rightarrow> 'a" where
  "orDefault None d = d"
| "orDefault (Some x) d = x"

definition emptyDoc :: rulesDoc where
  "emptyDoc = \<lparr>doc_window = None, doc_decision = None, doc_strongSignals = None,
               doc_scoring = None, doc_securityGuideMapping = None\<rparr>"

text \<open>
  \<open>readRules\<close>, from the parsed document on (\<open>None\<close>: \<open>yaml.load\<close> returned
  \<open>null\<close> or \<open>undefined\<close>, as for an empty file).
\<close>

definition readRules :: "rulesDoc option \<Rightarrow> rules" where
  "readRules loaded =
     (let d = orDefault loaded emptyDoc in
      \<lparr>window = Some (orDefault (doc_window d) \<lparr>wtype = ''hours'', wvalue = Some (JNum (Fin 24))\<rparr>),
       decision = orDefault (doc_decision d) \<lparr>threshold = Some (JNum (Fin 8))\<rparr>,
       strongSignals = orDefault (doc_strongSignals d) \<lparr>patterns = Some []\<rparr>,
       scoring = orDefault (doc_scoring d)
                   \<lparr>labelWeights = Some [], textKeywordWeights = Some [], pathWeights = Some []\<rparr>,
       securityGuideMapping = Some (orDefault (doc_securityGuideMapping d) [])\<rparr>)"

text \<open>\<open>Number(rules.window?.value ?? 24)\<close> of \<open>main\<close>.\<close>

definition windowHours :: "js \<Rightarrow> rules \<Rightarrow> jsnum" where
  "windowHours E r =
     Number E (nullish (case window r of None \<Rightarrow> None | Some win \<Rightarrow> wvalue win) (JNum (Fin 24)))"

section \<open>The scoring engine (\<open>scoreOne\<close>)\<close>

record item =
  title :: "string option"
  body :: "string option"
  labels :: "string list"
  files :: "string list"

text \<open>
  A hit record \<open>{type, what, file, w}\<close>; only a path hit has a \<open>file\<close>, the field
  \<open>hfile\<close> here.
\<close>

record hit =
  type :: string
  what :: string
  hfile :: "string option"
  w :: jsnum

record compiled =
  re :: regexp
  pattern :: string
  weight :: jsnum

record result =
  adopt :: bool
  score :: jsnum
  strongHit :: string
  tags :: "string list"
  hits :: "hit list"

definition compileWeightedRegexMap :: "js \<Rightarrow> (string \<times> jsval) list option \<Rightarrow> error + compiled list" where
  "compileWeightedRegexMap E obj =
     mapE (\<lambda>(p, v).
             case newRegExp E p of
               Inl e \<Rightarrow> Inl e
             | Inr r \<Rightarrow> Inr \<lparr>re = r, pattern = p,
                             weight = numberOr0 E v\<rparr>)
          (orEmpty obj)"

text \<open>The combined text: title, two newlines, body.\<close>

definition combinedText :: "item \<Rightarrow> string" where
  "combinedText it =
     (case title it of None \<Rightarrow> [] | Some s \<Rightarrow> s) @ [CHR 0x0A, CHR 0x0A] @
     (case body it of None \<Rightarrow> [] | Some s \<Rightarrow> s)"

text \<open>The strong-signal loop: \<open>strongHit\<close> starts as the empty string; the first match breaks.\<close>

fun strongLoop :: "js \<Rightarrow> string list \<Rightarrow> string \<Rightarrow> error + string" where
  "strongLoop E [] txt = Inr []"
| "strongLoop E (p # ps) txt =
     (case newRegExp E p of
        Inl e \<Rightarrow> Inl e
      | Inr r \<Rightarrow> if r txt then Inr p else strongLoop E ps txt)"

text \<open>
  The loops over labels, text keywords and paths update \<open>score\<close> and \<open>hits\<close>.
  \<open>lw[l]\<close> of a label that is no key of the map is \<open>undefined\<close>, or a property
  inherited from \<open>Object.prototype\<close> (for a label such as \<open>constructor\<close>), which
  \<open>Number\<close> turns into \<open>NaN\<close>: in both cases the weight is falsy, as for \<open>None\<close> here.
\<close>

fun labelLoop :: "js \<Rightarrow> (string \<times> jsval) list \<Rightarrow> string list \<Rightarrow> jsnum \<times> hit list \<Rightarrow> jsnum \<times> hit list" where
  "labelLoop E lw [] st = st"
| "labelLoop E lw (l # ls) (sc, hs) =
     (let x = Number E (nullish (map_of lw l) (JNum (Fin 0))) in
      if truthy x
      then labelLoop E lw ls (jadd E sc x, hs @ [\<lparr>type = ''label'', what = l, hfile = None, w = x\<rparr>])
      else labelLoop E lw ls (sc, hs))"

fun textLoop :: "js \<Rightarrow> compiled list \<Rightarrow> string \<Rightarrow> jsnum \<times> hit list \<Rightarrow> jsnum \<times> hit list" where
  "textLoop E [] txt st = st"
| "textLoop E (r # rs) txt (sc, hs) =
     (if re r txt
      then textLoop E rs txt
             (jadd E sc (weight r), hs @ [\<lparr>type = ''text'', what = pattern r, hfile = None, w = weight r\<rparr>])
      else textLoop E rs txt (sc, hs))"

fun fileLoop :: "js \<Rightarrow> compiled \<Rightarrow> string list \<Rightarrow> jsnum \<times> hit list \<Rightarrow> jsnum \<times> hit list" where
  "fileLoop E r [] st = st"
| "fileLoop E r (f # fs) (sc, hs) =
     (if re r f
      then fileLoop E r fs
             (jadd E sc (weight r), hs @ [\<lparr>type = ''path'', what = pattern r, hfile = Some f, w = weight r\<rparr>])
      else fileLoop E r fs (sc, hs))"

fun pathLoop :: "js \<Rightarrow> compiled list \<Rightarrow> string list \<Rightarrow> jsnum \<times> hit list \<Rightarrow> jsnum \<times> hit list" where
  "pathLoop E [] fs st = st"
| "pathLoop E (r # rs) fs st = pathLoop E rs fs (fileLoop E r fs st)"

text \<open>The guide-mapping loop also collects \<open>tags\<close>; compiling a keyword or a path may throw.\<close>

fun guideLoop :: "js \<Rightarrow> guideMapping list \<Rightarrow> string \<Rightarrow> string list \<Rightarrow>
    jsnum \<times> string list \<times> hit list \<Rightarrow> error + (jsnum \<times> string list \<times> hit list)" where
  "guideLoop E [] txt fs st = Inr st"
| "guideLoop E (m # ms) txt fs (sc, ts, hs) =
     (let bonus = Number E (nullish (scoreBonus m) (JNum (Fin 0))) in
      case mapE (newRegExp E) (orEmpty (keywordPatterns m)) of
        Inl e \<Rightarrow> Inl e
      | Inr kwRes \<Rightarrow>
          (case mapE (newRegExp E) (orEmpty (paths m)) of
             Inl e \<Rightarrow> Inl e
           | Inr pRes \<Rightarrow>
               (let kwHit = list_ex (\<lambda>r. r txt) kwRes;
                    pHit = list_ex (\<lambda>f. list_ex (\<lambda>r. r f) pRes) fs
                in if kwHit \<or> pHit
                   then (if truthy bonus
                         then guideLoop E ms txt fs
                                (jadd E sc bonus, ts @ [tag m],
                                 hs @ [\<lparr>type = ''guide'', what = tag m, hfile = None, w = bonus\<rparr>])
                         else guideLoop E ms txt fs (sc, ts @ [tag m], hs))
                   else guideLoop E ms txt fs (sc, ts, hs))))"

definition scoreOne :: "js \<Rightarrow> item \<Rightarrow> rules \<Rightarrow> error + result" where
  "scoreOne E it rs =
     (let txt = combinedText it in
      case strongLoop E (orEmpty (patterns (strongSignals rs))) txt of
        Inl e \<Rightarrow> Inl e
      | Inr sh \<Rightarrow>
          (let st1 = labelLoop E (orEmpty (labelWeights (scoring rs))) (labels it) (Fin 0, []) in
           case compileWeightedRegexMap E (textKeywordWeights (scoring rs)) of
             Inl e \<Rightarrow> Inl e
           | Inr trs \<Rightarrow>
               (let st2 = textLoop E trs txt st1 in
                case compileWeightedRegexMap E (pathWeights (scoring rs)) of
                  Inl e \<Rightarrow> Inl e
                | Inr prs \<Rightarrow>
                    (let st3 = pathLoop E prs (files it) st2 in
                     case guideLoop E (orEmpty (securityGuideMapping rs)) txt (files it)
                            (fst st3, [], snd st3) of
                       Inl e \<Rightarrow> Inl e
                     | Inr (sc, ts, hs) \<Rightarrow>
                         (let thr = Number E (nullish (threshold (decision rs)) (JNum (Fin 8))) in
                          Inr \<lparr>adopt = (truthyStr sh \<or> jge sc thr), score = sc, strongHit = sh,
                               tags = ts, hits = hs\<rparr>)))))"

text \<open>
  The loop of \<open>main\<close> over the candidates that passed the \<open>merged_at\<close> and window checks,
  already fetched: each is scored, one that is adopted is pushed onto \<open>picked\<close>, and a throw
  of \<open>scoreOne\<close> ends the run (\<open>main().catch\<close> exits with status 1; nothing is written).
\<close>

fun pickLoop :: "js \<Rightarrow> rules \<Rightarrow> item list \<Rightarrow> (item \<times> result) list \<Rightarrow> error + (item \<times> result) list" where
  "pickLoop E rs [] picked = Inr picked"
| "pickLoop E rs (it # its) picked =
     (case scoreOne E it rs of
        Inl e \<Rightarrow> Inl e
      | Inr res \<Rightarrow> if adopt res then pickLoop E rs its (picked @ [(it, res)])
                   else pickLoop E rs its picked)"

text \<open>Summing the explanation trail, as \<open>hits.reduce((a, h) => a + h.w, 0)\<close> does.\<close>

definition sumWeights :: "js \<Rightarrow> hit list \<Rightarrow> jsnum" where
  "sumWeights E hs = foldl (\<lambda>a h. jadd E a (w h)) (Fin 0) hs"

section \<open>What a run records, stated from the configuration\<close>

text \<open>Whether pattern text \<open>p\<close> compiles and its expression matches \<open>s\<close>.\<close>

definition matches :: "js \<Rightarrow> string \<Rightarrow> string \<Rightarrow> bool" where
  "matches E p s = (case RegExp E p of None \<Rightarrow> False | Some r \<Rightarrow> r s)"

definition compiles :: "js \<Rightarrow> string \<Rightarrow> bool" where
  "compiles E p = (case RegExp E p of None \<Rightarrow> False | Some r \<Rightarrow> True)"

text \<open>\<open>Number(lw[l] ?? 0)\<close> and \<open>Number(m.scoreBonus ?? 0)\<close>.\<close>

definition labelWeight :: "js \<Rightarrow> (string \<times> jsval) list \<Rightarrow> string \<Rightarrow> jsnum" where
  "labelWeight E lw l = Number E (nullish (map_of lw l) (JNum (Fin 0)))"

definition bonusOf :: "js \<Rightarrow> guideMapping \<Rightarrow> jsnum" where
  "bonusOf E m = Number E (nullish (scoreBonus m) (JNum (Fin 0)))"

definition labelHit :: "string \<Rightarrow> jsnum \<Rightarrow> hit" where
  "labelHit l x = \<lparr>type = ''label'', what = l, hfile = None, w = x\<rparr>"

definition textHit :: "string \<Rightarrow> jsnum \<Rightarrow> hit" where
  "textHit p x = \<lparr>type = ''text'', what = p, hfile = None, w = x\<rparr>"

definition pathHit :: "string \<Rightarrow> string \<Rightarrow> jsnum \<Rightarrow> hit" where
  "pathHit p f x = \<lparr>type = ''path'', what = p, hfile = Some f, w = x\<rparr>"

definition guideHit :: "string \<Rightarrow> jsnum \<Rightarrow> hit" where
  "guideHit t x = \<lparr>type = ''guide'', what = t, hfile = None, w = x\<rparr>"

definition labelHitsOf :: "js \<Rightarrow> (string \<times> jsval) list \<Rightarrow> string list \<Rightarrow> hit list" where
  "labelHitsOf E lw ls =
     map (\<lambda>l. labelHit l (labelWeight E lw l)) (filter (\<lambda>l. truthy (labelWeight E lw l)) ls)"

definition textHitsOf :: "js \<Rightarrow> (string \<times> jsval) list \<Rightarrow> string \<Rightarrow> hit list" where
  "textHitsOf E tw txt =
     map (\<lambda>(p, v). textHit p (numberOr0 E v)) (filter (\<lambda>(p, v). matches E p txt) tw)"

definition pathHitsOf :: "js \<Rightarrow> (string \<times> jsval) list \<Rightarrow> string list \<Rightarrow> hit list" where
  "pathHitsOf E pw fs =
     concat (map (\<lambda>(p, v). map (\<lambda>f. pathHit p f (numberOr0 E v)) (filter (matches E p) fs)) pw)"

definition guideFires :: "js \<Rightarrow> guideMapping \<Rightarrow> string \<Rightarrow> string list \<Rightarrow> bool" where
  "guideFires E m txt fs =
     (list_ex (\<lambda>k. matches E k txt) (orEmpty (keywordPatterns m)) \<or>
      list_ex (\<lambda>f. list_ex (\<lambda>p. matches E p f) (orEmpty (paths m))) fs)"

definition guideHitsOf :: "js \<Rightarrow> guideMapping list \<Rightarrow> string \<Rightarrow> string list \<Rightarrow> hit list" where
  "guideHitsOf E ms txt fs =
     map (\<lambda>m. guideHit (tag m) (bonusOf E m))
         (filter (\<lambda>m. guideFires E m txt fs \<and> truthy (bonusOf E m)) ms)"

definition guideTagsOf :: "js \<Rightarrow> guideMapping list \<Rightarrow> string \<Rightarrow> string list \<Rightarrow> string list" where
  "guideTagsOf E ms txt fs = map tag (filter (\<lambda>m. guideFires E m txt fs) ms)"

text \<open>Every pattern text of a rule set that \<open>scoreOne\<close> compiles whatever the item is.\<close>

definition eagerPatterns :: "rules \<Rightarrow> string list" where
  "eagerPatterns rs =
     map fst (orEmpty (textKeywordWeights (scoring rs))) @
     map fst (orEmpty (pathWeights (scoring rs))) @
     concat (map (\<lambda>m. orEmpty (keywordPatterns m) @ orEmpty (paths m))
                 (orEmpty (securityGuideMapping rs)))"

text \<open>The whole trail and the threshold of a rule set.\<close>

definition allHitsOf :: "js \<Rightarrow> item \<Rightarrow> rules \<Rightarrow> hit list" where
  "allHitsOf E it rs =
     labelHitsOf E (orEmpty (labelWeights (scoring rs))) (labels it) @
     textHitsOf E (orEmpty (textKeywordWeights (scoring rs))) (combinedText it) @
     pathHitsOf E (orEmpty (pathWeights (scoring rs))) (files it) @
     guideHitsOf E (orEmpty (securityGuideMapping rs)) (combinedText it) (files it)"

definition thresholdOf :: "js \<Rightarrow> rules \<Rightarrow> jsnum" where
  "thresholdOf E rs = Number E (nullish (threshold (decision rs)) (JNum (Fin 8)))"

text \<open>
  The weights that each kind of rule hands to \<open>score +=\<close>, in the order in which they are
  added: one per label of truthy weight, one per matching text keyword, one per file
  occurrence that a path pattern matches, one per guide mapping that fires with a truthy bonus.
\<close>

definition labelWeightsOf :: "js \<Rightarrow> (string \<times> jsval) list \<Rightarrow> string list \<Rightarrow> jsnum list" where
  "labelWeightsOf E lw ls =
     map (labelWeight E lw) (filter (\<lambda>l. truthy (labelWeight E lw l)) ls)"

definition textWeightsOf :: "js \<Rightarrow> (string \<times> jsval) list \<Rightarrow> string \<Rightarrow> jsnum list" where
  "textWeightsOf E tw txt =
     map (\<lambda>(p, v). numberOr0 E v) (filter (\<lambda>(p, v). matches E p txt) tw)"

definition pathWeightsOf :: "js \<Rightarrow> (string \<times> jsval) list \<Rightarrow> string list \<Rightarrow> jsnum list" where
  "pathWeightsOf E pw fs =
     concat (map (\<lambda>(p, v). replicate (length (filter (matches E p) fs)) (numberOr0 E v)) pw)"

definition guideWeightsOf :: "js \<Rightarrow> guideMapping list \<Rightarrow> string \<Rightarrow> string list \<Rightarrow> jsnum list" where
  "guideWeightsOf E ms txt fs =
     map (bonusOf E) (filter (\<lambda>m. guideFires E m txt fs \<and> truthy (bonusOf E m)) ms)"

text \<open>
  The rule set without the text-keyword and path entries whose weight is falsy as a number.
\<close>

definition dropZeroWeights :: "js \<Rightarrow> rules \<Rightarrow> rules" where
  "dropZeroWeights E rs =
     rs\<lparr>scoring := (scoring rs)
          \<lparr>textKeywordWeights :=
             Some (filter (\<lambda>(p, v). truthy (Number E v)) (orEmpty (textKeywordWeights (scoring rs)))),
           pathWeights :=
             Some (filter (\<lambda>(p, v). truthy (Number E v)) (orEmpty (pathWeights (scoring rs))))\<rparr>\<rparr>"

text \<open>
  The rule set as the specification describes it, with nothing left absent: a missing
  section is the explicitly empty one (window \<open>{hours, 24}\<close>, threshold \<open>8\<close>, empty
  weight maps and pattern sequences, no guide mapping), and inside a section that is present a
  missing map or sequence is empty, a missing threshold is \<open>8\<close>, a missing window value
  \<open>24\<close> and a missing bonus \<open>0\<close>.
\<close>

definition explicitMapping :: "guideMapping \<Rightarrow> guideMapping" where
  "explicitMapping m =
     \<lparr>tag = tag m,
      scoreBonus = Some (nullish (scoreBonus m) (JNum (Fin 0))),
      keywordPatterns = Some (orEmpty (keywordPatterns m)),
      paths = Some (orEmpty (paths m))\<rparr>"

definition explicitRules :: "rulesDoc option \<Rightarrow> rules" where
  "explicitRules loaded =
     (let d = (case loaded of None \<Rightarrow> emptyDoc | Some x \<Rightarrow> x) in
      \<lparr>window = Some (case doc_window d of
                        None \<Rightarrow> \<lparr>wtype = ''hours'', wvalue = Some (JNum (Fin 24))\<rparr>
                      | Some win \<Rightarrow>
                          \<lparr>wtype = wtype win,
                           wvalue = Some (nullish (wvalue win) (JNum (Fin 24)))\<rparr>),
       decision = (case doc_decision d of
                     None \<Rightarrow> \<lparr>threshold = Some (JNum (Fin 8))\<rparr>
                   | Some dec \<Rightarrow> \<lparr>threshold = Some (nullish (threshold dec) (JNum (Fin 8)))\<rparr>),
       strongSignals = (case doc_strongSignals d of
                          None \<Rightarrow> \<lparr>patterns = Some []\<rparr>
                        | Some ss \<Rightarrow> \<lparr>patterns = Some (orEmpty (patterns ss))\<rparr>),
       scoring = (case doc_scoring d of
                    None \<Rightarrow> \<lparr>labelWeights = Some [], textKeywordWeights = Some [],
                              pathWeights = Some []\<rparr>
                  | Some sc \<Rightarrow>
                      \<lparr>labelWeights = Some (orEmpty (labelWeights sc)),
                       textKeywordWeights = Some (orEmpty (textKeywordWeights sc)),
                       pathWeights = Some (orEmpty (pathWeights sc))\<rparr>),
       securityGuideMapping = Some (case doc_securityGuideMapping d of
                                      None \<Rightarrow> []
                                    | Some ms \<Rightarrow> map explicitMapping ms)\<rparr>)"

section \<open>A sample engine and sample inputs\<close>

text \<open>
  A small instance of the built-ins for evaluating the model on concrete inputs. It covers
  pattern text made of letters, digits, space, \<open>-\<close>, \<open>_\<close> and \<open>/\<close> only, which JavaScript
  compiles to an unanchored substring search (the empty pattern matches every text), and it
  rejects every other pattern text; the only rejected text used below is \<open>(\<close>, which
  JavaScript rejects too (unterminated group). Its string conversion covers the empty
  string (\<open>0\<close>), strings of decimal digits, and gives \<open>NaN\<close> otherwise, as JavaScript does for
  a string that starts with a lower-case letter. Its rounding leaves a sum as it is, which is
  what IEEE addition does for integers of magnitude up to \<open>2^53\<close>, and takes
  \<open>10^16 + 1\<close>, halfway between the doubles \<open>10^16\<close> and \<open>10^16 + 2\<close>, to the even one,
  \<open>10^16\<close>; the inputs below add nothing else.
\<close>

fun isSubstring :: "string \<Rightarrow> string \<Rightarrow> bool" where
  "isSubstring p [] = (p = [])"
| "isSubstring p (c # cs) = (prefix p (c # cs) \<or> isSubstring p cs)"

definition plainChar :: "char \<Rightarrow> bool" where
  "plainChar c =
     (c \<in> set ''abcdefghijklmnopqrstuvwxyzABCDEFGHIJKLMNOPQRSTUVWXYZ0123456789 -_/'')"

definition isDigit :: "char \<Rightarrow> bool" where
  "isDigit c = (c \<in> set ''0123456789'')"

definition sampleJs :: js where
  "sampleJs =
     \<lparr>RegExp = (\<lambda>p. if list_all plainChar p then Some (isSubstring p) else None),
      StringToNumber =
        (\<lambda>s. if s = [] then Fin 0
              else if list_all isDigit s
              then Fin (of_nat (foldl (\<lambda>a c. 10 * a + (of_char c - 48)) 0 s))
              else NaN),
      roundToDouble =
        (\<lambda>q. if q = 10000000000000001 then Some 10000000000000000 else Some q)\<rparr>"

text \<open>The item of the end-to-end example of the specification.\<close>

definition exItem :: item where
  "exItem = \<lparr>title = Some ''Fix parser'', body = Some ''CVE-2024-1111'',
             labels = [''security''], files = [''lib/a.rb'']\<rparr>"

text \<open>Items and rule sets that exercise the strong-signal scan only.\<close>

definition cveItem :: item where
  "cveItem = \<lparr>title = Some ''Bump'', body = Some ''CVE-2024-1111'', labels = [], files = []\<rparr>"

definition secItem :: item where
  "secItem = \<lparr>title = Some ''Fix XSS in helper'', body = Some ''CVE-2024-1111'',
              labels = [], files = []\<rparr>"

definition strongRules :: "string list \<Rightarrow> rules" where
  "strongRules ps =
     \<lparr>window = None,
      decision = \<lparr>threshold = Some (JNum (Fin 8))\<rparr>,
      strongSignals = \<lparr>patterns = Some ps\<rparr>,
      scoring = \<lparr>labelWeights = None, textKeywordWeights = None, pathWeights = None\<rparr>,
      securityGuideMapping = None\<rparr>"

text \<open>A rule set whose only text keyword is malformed pattern text.\<close>

definition badTextRules :: rules where
  "badTextRules =
     \<lparr>window = None,
      decision = \<lparr>threshold = Some (JNum (Fin 8))\<rparr>,
      strongSignals = \<lparr>patterns = Some []\<rparr>,
      scoring = \<lparr>labelWeights = None, textKeywordWeights = Some [(''('', JNum (Fin 5))],
                 pathWeights = None\<rparr>,
      securityGuideMapping = None\<rparr>"

text \<open>Rule sets made of weights only, and items for them.\<close>

definition weightRules ::
  "(string \<times> jsval) list \<Rightarrow> (string \<times> jsval) list \<Rightarrow> (string \<times> jsval) list \<Rightarrow> rules" where
  "weightRules lw tw pw =
     \<lparr>window = None,
      decision = \<lparr>threshold = Some (JNum (Fin 8))\<rparr>,
      strongSignals = \<lparr>patterns = None\<rparr>,
      scoring = \<lparr>labelWeights = Some lw, textKeywordWeights = Some tw, pathWeights = Some pw\<rparr>,
      securityGuideMapping = None\<rparr>"

definition labItem :: item where
  "labItem = \<lparr>title = Some ''Tidy'', body = None,
              labels = [''security'', ''docs'', ''misc'', ''wip''], files = []\<rparr>"

definition labRules :: rules where
  "labRules = weightRules [(''security'', JNum (Fin 5)), (''docs'', JNum (Fin 0)),
                           (''wip'', JStr ''high'')] [] []"

definition libItem :: item where
  "libItem = \<lparr>title = Some ''Refactor'', body = None, labels = [],
              files = [''lib/a'', ''doc/x'', ''lib/b'', ''lib/a'']\<rparr>"

definition libRules :: rules where
  "libRules = weightRules [] [] [(''lib/'', JNum (Fin 2)), (''doc'', JNum (Fin (-1)))]"

text \<open>Label weights that are the two infinities.\<close>

definition infItem :: item where
  "infItem = \<lparr>title = Some ''Tidy'', body = None, labels = [''a'', ''b''], files = []\<rparr>"

definition infRules :: rules where
  "infRules = weightRules [(''a'', JNum PInf), (''b'', JNum NInf)] [] []"

definition infResult :: result where
  "infResult =
     \<lparr>adopt = False, score = NaN, strongHit = [], tags = [],
      hits = [labelHit ''a'' PInf, labelHit ''b'' NInf]\<rparr>"

text \<open>Label weights whose sum is rounded: \<open>10^16\<close>, \<open>1\<close> and \<open>1\<close>.\<close>

definition bigItem :: item where
  "bigItem = \<lparr>title = Some ''Tidy'', body = None, labels = [''a'', ''b'', ''c''], files = []\<rparr>"

definition bigRules :: rules where
  "bigRules = weightRules [(''a'', JNum (Fin 10000000000000000)), (''b'', JNum (Fin 1)),
                           (''c'', JNum (Fin 1))] [] []"

definition bigResult :: result where
  "bigResult =
     \<lparr>adopt = True, score = Fin 10000000000000000, strongHit = [], tags = [],
      hits = [labelHit ''a'' (Fin 10000000000000000), labelHit ''b'' (Fin 1),
              labelHit ''c'' (Fin 1)]\<rparr>"

text \<open>
  An item and a rule set with every kind of rule: one keyword occurs in the title only, one
  twice in the body only, and one file is listed twice.
\<close>

definition fullItem :: item where
  "fullItem =
     \<lparr>title = Some ''Fix XSS in helper'', body = Some ''CVE-2024-1111 and CVE-2024-2222'',
      labels = [''security'', ''docs'', ''misc''],
      files = [''lib/a'', ''doc/x'', ''lib/b'', ''lib/a'']\<rparr>"

definition fullRules :: rules where
  "fullRules =
     \<lparr>window = None,
      decision = \<lparr>threshold = Some (JNum (Fin 8))\<rparr>,
      strongSignals = \<lparr>patterns = Some [''SQL'']\<rparr>,
      scoring = \<lparr>labelWeights = Some [(''security'', JNum (Fin 5)), (''docs'', JNum (Fin 0))],
                 textKeywordWeights =
                   Some [(''CVE'', JNum (Fin 6)), (''SQL'', JNum (Fin 4)), (''XSS'', JNum (Fin 3))],
                 pathWeights = Some [(''lib/'', JNum (Fin 2)), (''doc'', JNum (Fin (-1)))]\<rparr>,
      securityGuideMapping =
        Some [\<lparr>tag = ''xss'', scoreBonus = Some (JNum (Fin 1)),
               keywordPatterns = Some [''XSS''], paths = None\<rparr>]\<rparr>"

definition fullResult :: result where
  "fullResult =
     \<lparr>adopt = True, score = Fin 20, strongHit = [], tags = [''xss''],
      hits = [labelHit ''security'' (Fin 5),
              textHit ''CVE'' (Fin 6), textHit ''XSS'' (Fin 3),
              pathHit ''lib/'' ''lib/a'' (Fin 2), pathHit ''lib/'' ''lib/b'' (Fin 2),
              pathHit ''lib/'' ''lib/a'' (Fin 2), pathHit ''doc'' ''doc/x'' (Fin (-1)),
              guideHit ''xss'' (Fin 1)]\<rparr>"

text \<open>An item and a rule set in which every weight is zero or unparsable.\<close>

definition zeroItem :: item where
  "zeroItem = \<lparr>title = Some ''CVE fix'', body = None, labels = [''docs''], files = [''lib/a'']\<rparr>"

definition zeroRules :: rules where
  "zeroRules =
     \<lparr>window = None,
      decision = \<lparr>threshold = Some (JNum (Fin 8))\<rparr>,
      strongSignals = \<lparr>patterns = None\<rparr>,
      scoring = \<lparr>labelWeights = Some [(''docs'', JNum (Fin 0))],
                 textKeywordWeights = Some [(''CVE'', JStr ''high'')],
                 pathWeights = Some [(''lib/'', JNum (Fin 0))]\<rparr>,
      securityGuideMapping =
        Some [\<lparr>tag = ''xss'', scoreBonus = Some (JStr ''high''),
               keywordPatterns = Some [''CVE''], paths = None\<rparr>]\<rparr>"

text \<open>A document with a partial \<open>scoring\<close> section and nothing else.\<close>

definition partialDoc :: rulesDoc where
  "partialDoc =
     \<lparr>doc_window = None, doc_decision = None, doc_strongSignals = None,
      doc_scoring = Some \<lparr>labelWeights = Some [(''security'', JNum (Fin 5))],
                            textKeywordWeights = None, pathWeights = None\<rparr>,
      doc_securityGuideMapping = None\<rparr>"

section \<open>The loops, characterised\<close>


lemma error_is_SyntaxError: "(e::error) = SyntaxError"
  by (cases e) simp

lemma newRegExp_Inr: "newRegExp E p = Inr r \<longleftrightarrow> RegExp E p = Some r"
  by (simp add: newRegExp_def split: option.splits)

lemma newRegExp_Inl: "newRegExp E p = Inl e \<longleftrightarrow> \<not> compiles E p"
  by (cases e) (simp add: newRegExp_def compiles_def split: option.splits)

lemma matches_Some: "RegExp E p = Some r \<Longrightarrow> matches E p s = r s"
  by (simp add: matches_def)

lemma compiles_Some: "RegExp E p = Some r \<Longrightarrow> compiles E p"
  by (simp add: compiles_def)

lemma labelLoop_eq:
  "labelLoop E lw ls (sc, hs) =
     (foldl (\<lambda>a h. jadd E a (w h)) sc (labelHitsOf E lw ls), hs @ labelHitsOf E lw ls)"
  by (induction ls arbitrary: sc hs)
     (simp_all add: labelHitsOf_def labelWeight_def labelHit_def Let_def)

lemma mapE_newRegExp_Inr:
  "mapE (newRegExp E) ps = Inr rs \<Longrightarrow>
     list_all (compiles E) ps \<and> list_ex (\<lambda>r. r s) rs = list_ex (\<lambda>p. matches E p s) ps"
proof (induction ps arbitrary: rs)
  case Nil
  then show ?case by auto
next
  case (Cons p ps)
  from Cons.prems obtain r rs' where r: "newRegExp E p = Inr r"
    and rs': "mapE (newRegExp E) ps = Inr rs'" and rs: "rs = r # rs'"
    by (auto split: sum.splits)
  from r have "RegExp E p = Some r" by (simp add: newRegExp_Inr)
  with Cons.IH [OF rs'] rs show ?case
    by (simp add: matches_Some compiles_Some)
qed

lemma mapE_newRegExp_Inl:
  "mapE (newRegExp E) ps = Inl e \<longleftrightarrow> \<not> list_all (compiles E) ps"
proof (induction ps)
  case Nil
  then show ?case by simp
next
  case (Cons p ps)
  show ?case
  proof (cases "newRegExp E p")
    case (Inl e')
    then show ?thesis by (simp add: newRegExp_Inl [of E p e', symmetric] error_is_SyntaxError [of e] error_is_SyntaxError [of e'])
  next
    case (Inr r)
    then have "compiles E p" by (simp add: newRegExp_Inr compiles_Some)
    with Inr Cons.IH show ?thesis by (auto split: sum.splits)
  qed
qed


lemma compileWeightedRegexMap_Inl:
  "compileWeightedRegexMap E obj = Inl e \<longleftrightarrow> \<not> list_all (compiles E) (map fst (orEmpty obj))"
proof -
  have "mapE (\<lambda>(p, v). case newRegExp E p of Inl e \<Rightarrow> Inl e
                 | Inr r \<Rightarrow> Inr \<lparr>re = r, pattern = p, weight = numberOr0 E v\<rparr>) es = Inl e
        \<longleftrightarrow> \<not> list_all (compiles E) (map fst es)" for es
  proof (induction es)
    case Nil
    then show ?case by simp
  next
    case (Cons x es)
    obtain p v where x: "x = (p, v)" by (cases x)
    show ?case
    proof (cases "newRegExp E p")
      case (Inl e')
      then have "\<not> compiles E p" using newRegExp_Inl by blast
      with Inl x show ?thesis
        by (simp add: error_is_SyntaxError [of e] error_is_SyntaxError [of e'])
    next
      case (Inr r)
      then have "compiles E p" by (simp add: newRegExp_Inr compiles_Some)
      with Inr x Cons.IH show ?thesis by (auto split: sum.splits)
    qed
  qed
  then show ?thesis by (simp add: compileWeightedRegexMap_def)
qed

lemma compileWeightedRegexMap_Cons:
  assumes "compileWeightedRegexMap E (Some ((p, v) # es)) = Inr crs"
  obtains r crs' where "RegExp E p = Some r"
    and "compileWeightedRegexMap E (Some es) = Inr crs'"
    and "crs = \<lparr>re = r, pattern = p, weight = numberOr0 E v\<rparr> # crs'"
  using assms
  by (auto simp: compileWeightedRegexMap_def newRegExp_Inr split: sum.splits)

lemma textLoop_eq:
  "compileWeightedRegexMap E (Some es) = Inr crs \<Longrightarrow>
   textLoop E crs txt (sc, hs) =
     (foldl (\<lambda>a h. jadd E a (w h)) sc (textHitsOf E es txt), hs @ textHitsOf E es txt)"
proof (induction es arbitrary: crs sc hs)
  case Nil
  then show ?case by (simp add: compileWeightedRegexMap_def textHitsOf_def)
next
  case (Cons x es)
  obtain p v where x: "x = (p, v)" by (cases x)
  from Cons.prems x obtain r crs' where r: "RegExp E p = Some r"
    and crs': "compileWeightedRegexMap E (Some es) = Inr crs'"
    and crs: "crs = \<lparr>re = r, pattern = p, weight = numberOr0 E v\<rparr> # crs'"
    by (auto elim: compileWeightedRegexMap_Cons)
  show ?case
    using Cons.IH [OF crs'] r
    by (simp add: crs x textHitsOf_def textHit_def matches_Some)
qed

lemma fileLoop_eq:
  "fileLoop E c fs (sc, hs) =
     (foldl (\<lambda>a h. jadd E a (w h)) sc
        (map (\<lambda>f. pathHit (pattern c) f (weight c)) (filter (re c) fs)),
      hs @ map (\<lambda>f. pathHit (pattern c) f (weight c)) (filter (re c) fs))"
  by (induction fs arbitrary: sc hs) (simp_all add: pathHit_def)

lemma pathLoop_eq:
  "compileWeightedRegexMap E (Some es) = Inr crs \<Longrightarrow>
   pathLoop E crs fs (sc, hs) =
     (foldl (\<lambda>a h. jadd E a (w h)) sc (pathHitsOf E es fs), hs @ pathHitsOf E es fs)"
proof (induction es arbitrary: crs sc hs)
  case Nil
  then show ?case by (simp add: compileWeightedRegexMap_def pathHitsOf_def)
next
  case (Cons x es)
  obtain p v where x: "x = (p, v)" by (cases x)
  from Cons.prems x obtain r crs' where r: "RegExp E p = Some r"
    and crs': "compileWeightedRegexMap E (Some es) = Inr crs'"
    and crs: "crs = \<lparr>re = r, pattern = p, weight = numberOr0 E v\<rparr> # crs'"
    by (auto elim: compileWeightedRegexMap_Cons)
  from r have m: "filter (matches E p) fs = filter r fs"
    by (simp add: matches_Some cong: filter_cong)
  show ?case
    using Cons.IH [OF crs']
    by (simp add: crs x fileLoop_eq pathHitsOf_def m)
qed

lemma guideLoop_Inr:
  "guideLoop E ms txt fs (sc, ts, hs) = Inr out \<Longrightarrow>
   out = (foldl (\<lambda>a h. jadd E a (w h)) sc (guideHitsOf E ms txt fs),
          ts @ guideTagsOf E ms txt fs, hs @ guideHitsOf E ms txt fs)"
proof (induction ms arbitrary: sc ts hs)
  case Nil
  then show ?case by (simp add: guideHitsOf_def guideTagsOf_def)
next
  case (Cons m ms)
  from Cons.prems obtain kwRes pRes
    where kw: "mapE (newRegExp E) (orEmpty (keywordPatterns m)) = Inr kwRes"
      and pr: "mapE (newRegExp E) (orEmpty (paths m)) = Inr pRes"
    by (auto simp: Let_def split: sum.splits)
  have k: "list_ex (\<lambda>r. r txt) kwRes = list_ex (\<lambda>k. matches E k txt) (orEmpty (keywordPatterns m))"
    using mapE_newRegExp_Inr [OF kw] by simp
  have "list_ex (\<lambda>r. r f) pRes = list_ex (\<lambda>p. matches E p f) (orEmpty (paths m))" for f
    using mapE_newRegExp_Inr [OF pr] by simp
  then have p: "list_ex (\<lambda>f. list_ex (\<lambda>r. r f) pRes) fs
      = list_ex (\<lambda>f. list_ex (\<lambda>p. matches E p f) (orEmpty (paths m))) fs"
    by simp
  have fires: "(list_ex (\<lambda>r. r txt) kwRes \<or> list_ex (\<lambda>f. list_ex (\<lambda>r. r f) pRes) fs)
      = guideFires E m txt fs"
    by (simp add: guideFires_def k p)
  show ?case
  proof (cases "guideFires E m txt fs")
    case False
    with Cons.prems kw pr fires
    have "guideLoop E ms txt fs (sc, ts, hs) = Inr out" by (simp add: Let_def)
    from Cons.IH [OF this] False show ?thesis
      by (simp add: guideHitsOf_def guideTagsOf_def)
  next
    case True
    show ?thesis
    proof (cases "truthy (bonusOf E m)")
      case False
      with Cons.prems kw pr fires True
      have "guideLoop E ms txt fs (sc, ts @ [tag m], hs) = Inr out"
        by (simp add: Let_def bonusOf_def)
      from Cons.IH [OF this] True False show ?thesis
        by (simp add: guideHitsOf_def guideTagsOf_def)
    next
      case b: True
      with Cons.prems kw pr fires True
      have "guideLoop E ms txt fs
              (jadd E sc (bonusOf E m), ts @ [tag m],
               hs @ [\<lparr>type = ''guide'', what = tag m, hfile = None, w = bonusOf E m\<rparr>]) = Inr out"
        by (simp add: Let_def bonusOf_def)
      from Cons.IH [OF this] True b show ?thesis
        by (simp add: guideHitsOf_def guideTagsOf_def guideHit_def)
    qed
  qed
qed

lemma guideLoop_Inl:
  "guideLoop E ms txt fs (sc, ts, hs) = Inl e \<longleftrightarrow>
   \<not> list_all (compiles E) (concat (map (\<lambda>m. orEmpty (keywordPatterns m) @ orEmpty (paths m)) ms))"
proof (induction ms arbitrary: sc ts hs)
  case Nil
  then show ?case by simp
next
  case (Cons m ms)
  show ?case
  proof (cases "mapE (newRegExp E) (orEmpty (keywordPatterns m))")
    case (Inl e')
    then have "\<not> list_all (compiles E) (orEmpty (keywordPatterns m))"
      by (simp add: mapE_newRegExp_Inl)
    with Inl show ?thesis
      by (simp add: Let_def error_is_SyntaxError [of e] error_is_SyntaxError [of e'])
  next
    case kw: (Inr kwRes)
    then have kc: "list_all (compiles E) (orEmpty (keywordPatterns m))"
      using mapE_newRegExp_Inr by blast
    show ?thesis
    proof (cases "mapE (newRegExp E) (orEmpty (paths m))")
      case (Inl e')
      then have "\<not> list_all (compiles E) (orEmpty (paths m))"
        by (simp add: mapE_newRegExp_Inl)
      with Inl kw show ?thesis
        by (simp add: Let_def error_is_SyntaxError [of e] error_is_SyntaxError [of e'])
    next
      case pr: (Inr pRes)
      then have pc: "list_all (compiles E) (orEmpty (paths m))"
        using mapE_newRegExp_Inr by blast
      from kw pr kc pc show ?thesis
        by (simp add: Let_def Cons.IH)
    qed
  qed
qed


lemma compileWeightedRegexMap_orEmpty:
  "compileWeightedRegexMap E obj = compileWeightedRegexMap E (Some (orEmpty obj))"
  by (simp add: compileWeightedRegexMap_def)

lemma scoreOne_Inr:
  assumes "scoreOne E it rs = Inr res"
  shows "strongLoop E (orEmpty (patterns (strongSignals rs))) (combinedText it) = Inr (strongHit res)"
    and "hits res = allHitsOf E it rs"
    and "score res = sumWeights E (hits res)"
    and "tags res = guideTagsOf E (orEmpty (securityGuideMapping rs)) (combinedText it) (files it)"
    and "adopt res = (truthyStr (strongHit res) \<or> jge (score res) (thresholdOf E rs))"
proof -
  let ?txt = "combinedText it"
  from assms obtain sh trs prs out
    where sh: "strongLoop E (orEmpty (patterns (strongSignals rs))) ?txt = Inr sh"
      and trs: "compileWeightedRegexMap E (textKeywordWeights (scoring rs)) = Inr trs"
      and prs: "compileWeightedRegexMap E (pathWeights (scoring rs)) = Inr prs"
      and out: "guideLoop E (orEmpty (securityGuideMapping rs)) ?txt (files it)
                  (fst (pathLoop E prs (files it) (textLoop E trs ?txt
                     (labelLoop E (orEmpty (labelWeights (scoring rs))) (labels it) (Fin 0, [])))),
                   [],
                   snd (pathLoop E prs (files it) (textLoop E trs ?txt
                     (labelLoop E (orEmpty (labelWeights (scoring rs))) (labels it) (Fin 0, []))))) = Inr out"
      and res: "res = \<lparr>adopt = (truthyStr sh \<or> jge (fst out) (thresholdOf E rs)), score = fst out,
                        strongHit = sh, tags = fst (snd out), hits = snd (snd out)\<rparr>"
    by (auto simp: scoreOne_def Let_def thresholdOf_def split: sum.splits prod.splits)
  from trs have trs': "compileWeightedRegexMap E (Some (orEmpty (textKeywordWeights (scoring rs)))) = Inr trs"
    by (simp add: compileWeightedRegexMap_orEmpty [symmetric])
  from prs have prs': "compileWeightedRegexMap E (Some (orEmpty (pathWeights (scoring rs)))) = Inr prs"
    by (simp add: compileWeightedRegexMap_orEmpty [symmetric])
  have st3: "pathLoop E prs (files it) (textLoop E trs ?txt
               (labelLoop E (orEmpty (labelWeights (scoring rs))) (labels it) (Fin 0, [])))
      = (foldl (\<lambda>a h. jadd E a (w h)) (Fin 0)
           (labelHitsOf E (orEmpty (labelWeights (scoring rs))) (labels it) @
            textHitsOf E (orEmpty (textKeywordWeights (scoring rs))) ?txt @
            pathHitsOf E (orEmpty (pathWeights (scoring rs))) (files it)),
         labelHitsOf E (orEmpty (labelWeights (scoring rs))) (labels it) @
         textHitsOf E (orEmpty (textKeywordWeights (scoring rs))) ?txt @
         pathHitsOf E (orEmpty (pathWeights (scoring rs))) (files it))"
    by (simp add: labelLoop_eq textLoop_eq [OF trs'] pathLoop_eq [OF prs'])
  from out have out': "out =
      (foldl (\<lambda>a h. jadd E a (w h)) (Fin 0) (allHitsOf E it rs),
       guideTagsOf E (orEmpty (securityGuideMapping rs)) ?txt (files it),
       allHitsOf E it rs)"
    unfolding st3 fst_conv snd_conv
    by (drule_tac guideLoop_Inr) (simp add: allHitsOf_def)
  show "strongLoop E (orEmpty (patterns (strongSignals rs))) ?txt = Inr (strongHit res)"
    using sh res by simp
  show "hits res = allHitsOf E it rs" using res out' by simp
  show "score res = sumWeights E (hits res)" using res out' by (simp add: sumWeights_def)
  show "tags res = guideTagsOf E (orEmpty (securityGuideMapping rs)) ?txt (files it)"
    using res out' by simp
  show "adopt res = (truthyStr (strongHit res) \<or> jge (score res) (thresholdOf E rs))"
    using res by simp
qed

lemma scoreOne_Inl:
  "scoreOne E it rs = Inl e \<longleftrightarrow>
     strongLoop E (orEmpty (patterns (strongSignals rs))) (combinedText it) = Inl SyntaxError \<or>
     \<not> list_all (compiles E) (eagerPatterns rs)"
proof (cases "strongLoop E (orEmpty (patterns (strongSignals rs))) (combinedText it)")
  case (Inl e')
  then show ?thesis
    by (simp add: scoreOne_def Let_def error_is_SyntaxError [of e] error_is_SyntaxError [of e'])
next
  case sh: (Inr sh)
  show ?thesis
  proof (cases "compileWeightedRegexMap E (textKeywordWeights (scoring rs))")
    case (Inl e')
    then have "\<not> list_all (compiles E) (map fst (orEmpty (textKeywordWeights (scoring rs))))"
      by (simp add: compileWeightedRegexMap_Inl)
    with Inl sh show ?thesis
      by (simp add: scoreOne_def Let_def eagerPatterns_def
          error_is_SyntaxError [of e] error_is_SyntaxError [of e'])
  next
    case trs: (Inr trs)
    then have tc: "list_all (compiles E) (map fst (orEmpty (textKeywordWeights (scoring rs))))"
      using compileWeightedRegexMap_Inl [of E "textKeywordWeights (scoring rs)"] by auto
    show ?thesis
    proof (cases "compileWeightedRegexMap E (pathWeights (scoring rs))")
      case (Inl e')
      then have "\<not> list_all (compiles E) (map fst (orEmpty (pathWeights (scoring rs))))"
        by (simp add: compileWeightedRegexMap_Inl)
      with Inl sh trs show ?thesis
        by (simp add: scoreOne_def Let_def eagerPatterns_def
            error_is_SyntaxError [of e] error_is_SyntaxError [of e'])
    next
      case prs: (Inr prs)
      then have pc: "list_all (compiles E) (map fst (orEmpty (pathWeights (scoring rs))))"
        using compileWeightedRegexMap_Inl [of E "pathWeights (scoring rs)"] by auto
      obtain sc hs where st: "pathLoop E prs (files it) (textLoop E trs (combinedText it)
          (labelLoop E (orEmpty (labelWeights (scoring rs))) (labels it) (Fin 0, []))) = (sc, hs)"
        by (cases "pathLoop E prs (files it) (textLoop E trs (combinedText it)
          (labelLoop E (orEmpty (labelWeights (scoring rs))) (labels it) (Fin 0, [])))")
      show ?thesis
      proof (cases "guideLoop E (orEmpty (securityGuideMapping rs)) (combinedText it) (files it) (sc, [], hs)")
        case (Inl e')
        then have "\<not> list_all (compiles E)
            (concat (map (\<lambda>m. orEmpty (keywordPatterns m) @ orEmpty (paths m)) (orEmpty (securityGuideMapping rs))))"
          by (simp add: guideLoop_Inl)
        with Inl sh trs prs st show ?thesis
          by (simp add: scoreOne_def Let_def eagerPatterns_def
              error_is_SyntaxError [of e] error_is_SyntaxError [of e'])
      next
        case (Inr out)
        then have "list_all (compiles E)
            (concat (map (\<lambda>m. orEmpty (keywordPatterns m) @ orEmpty (paths m)) (orEmpty (securityGuideMapping rs))))"
          using guideLoop_Inl [of E "orEmpty (securityGuideMapping rs)" "combinedText it" "files it"
              sc "[]" hs SyntaxError] by simp
        with Inr sh trs prs st tc pc show ?thesis
          by (simp add: scoreOne_def Let_def eagerPatterns_def split: prod.splits)
      qed
    qed
  qed
qed

section \<open>The score and its explanation trail\<close>

lemma jadd_zero: "jadd E x (Fin 0) = x"
  by (cases x) simp_all

lemma jadd_finite_not_NaN: "x \<noteq> NaN \<Longrightarrow> jadd E x (Fin b) \<noteq> NaN"
  by (cases x) (simp_all split: option.splits)

lemma foldl_jadd_finite:
  "s \<noteq> NaN \<Longrightarrow> list_all (\<lambda>h. isFinite (w h)) hs \<Longrightarrow>
   foldl (\<lambda>a h. jadd E a (w h)) s hs \<noteq> NaN"
proof (induction hs arbitrary: s)
  case Nil
  then show ?case by simp
next
  case (Cons h hs)
  from Cons.prems(2) obtain b where b: "w h = Fin b" by (cases "w h") simp_all
  from Cons.prems(1) have "jadd E s (w h) \<noteq> NaN" unfolding b by (rule jadd_finite_not_NaN)
  from Cons.IH [OF this] Cons.prems(2) show ?case by simp
qed

lemma jeq_same: "jeq x x = (x \<noteq> NaN)"
  by (cases x) simp_all

text \<open>
  C2 as stated fails twice. With the label weights \<open>Infinity\<close> and \<open>-Infinity\<close> the score
  is \<open>NaN\<close>, and so is the sum of the trail; \<open>NaN\<close> is equal to nothing, itself included.
  With the label weights \<open>10^16\<close>, \<open>1\<close> and \<open>1\<close> each addition of \<open>1\<close> is rounded
  away and the score is \<open>10^16\<close>, not the exact sum \<open>10^16 + 2\<close> of the weights.
\<close>

theorem score_not_exact_sum_counterexample:
  "scoreOne sampleJs infItem infRules = Inr infResult \<and>
   score infResult = NaN \<and>
   \<not> jeq (score infResult) (sumWeights sampleJs (hits infResult)) \<and>
   scoreOne sampleJs bigItem bigRules = Inr bigResult \<and>
   map w (hits bigResult) = [Fin 10000000000000000, Fin 1, Fin 1] \<and>
   score bigResult = Fin 10000000000000000 \<and>
   score bigResult \<noteq> Fin (10000000000000000 + 1 + 1)"
  by code_simp

text \<open>
  C2, amended. Whenever \<open>scoreOne\<close> returns, the score is what adding the \<open>w\<close> fields
  of the hit records of the returned trail to \<open>0\<close>, in the order of the trail and with the
  engine's rounding addition, gives: summing the trail in this way reproduces the score. The
  two compare equal exactly when the score is not \<open>NaN\<close>, and the score is not \<open>NaN\<close>
  when every weight on the trail is finite.
\<close>

theorem score_is_sum_of_hit_weights:
  assumes "scoreOne E it rs = Inr res"
  shows "score res = sumWeights E (hits res) \<and>
         jeq (score res) (sumWeights E (hits res)) = (score res \<noteq> NaN) \<and>
         (list_all (\<lambda>h. isFinite (w h)) (hits res) \<longrightarrow> score res \<noteq> NaN)"
proof -
  have s: "score res = sumWeights E (hits res)" by (rule scoreOne_Inr(3) [OF assms])
  have "list_all (\<lambda>h. isFinite (w h)) (hits res) \<Longrightarrow> sumWeights E (hits res) \<noteq> NaN"
    unfolding sumWeights_def by (rule foldl_jadd_finite) simp_all
  with s show ?thesis by (simp add: jeq_same)
qed

theorem score_is_sum_of_hit_weights_witness:
  "scoreOne sampleJs fullItem fullRules = Inr fullResult \<and>
   score fullResult = Fin 20 \<and>
   sumWeights sampleJs (hits fullResult) = Fin 20 \<and>
   jeq (score fullResult) (sumWeights sampleJs (hits fullResult)) \<and>
   list_all (\<lambda>h. isFinite (w h)) (hits fullResult)"
proof -
  have h: "scoreOne sampleJs fullItem fullRules = Inr fullResult" by code_simp
  have f: "list_all (\<lambda>h. isFinite (w h)) (hits fullResult)" by code_simp
  have v: "score fullResult = Fin 20" by (simp add: fullResult_def)
  note t = score_is_sum_of_hit_weights [OF h]
  have s: "score fullResult = sumWeights sampleJs (hits fullResult)"
    by (rule conjunct1 [OF t])
  have e: "jeq (score fullResult) (sumWeights sampleJs (hits fullResult)) = (score fullResult \<noteq> NaN)"
    by (rule conjunct1 [OF conjunct2 [OF t]])
  from v e have "jeq (score fullResult) (sumWeights sampleJs (hits fullResult))" by simp
  moreover from s v have "sumWeights sampleJs (hits fullResult) = Fin 20" by simp
  ultimately show ?thesis using h f v by simp
qed

section \<open>The strong-signal scan\<close>

lemma strongLoop_skip:
  "list_all (\<lambda>q. compiles E q \<and> \<not> matches E q txt) pre \<Longrightarrow>
   strongLoop E (pre @ rest) txt = strongLoop E rest txt"
  by (induction pre)
     (auto simp: newRegExp_def compiles_def matches_def split: option.splits)

lemma strongLoop_hit: "matches E p txt \<Longrightarrow> strongLoop E (p # post) txt = Inr p"
  by (auto simp: newRegExp_def matches_def split: option.splits)

lemma strongLoop_compiled:
  "strongLoop E (pre @ rest) txt = Inr sh \<Longrightarrow> list_all (\<lambda>q. \<not> matches E q txt) pre \<Longrightarrow>
   list_all (compiles E) pre"
  by (induction pre)
     (auto simp: newRegExp_def compiles_def matches_def split: option.splits if_splits)

lemma strongLoop_malformed:
  "\<not> compiles E bad \<Longrightarrow> list_all (\<lambda>q. \<not> matches E q txt) pre \<Longrightarrow>
   strongLoop E (pre @ bad # post) txt = Inl SyntaxError"
  by (induction pre)
     (auto simp: newRegExp_def compiles_def matches_def split: option.splits)

lemma scoreOne_strong_cong:
  "strongLoop E (orEmpty (patterns (strongSignals rs))) (combinedText it) =
   strongLoop E ps (combinedText it) \<Longrightarrow>
   scoreOne E it (rs\<lparr>strongSignals := \<lparr>patterns = Some ps\<rparr>\<rparr>) = scoreOne E it rs"
  by (simp add: scoreOne_def Let_def cong: sum.case_cong)

text \<open>
  C6. When the strong-signal patterns are \<open>pre @ p # post\<close>, no pattern of \<open>pre\<close>
  matches the combined text and \<open>p\<close> matches it, so that \<open>p\<close> is the first pattern in
  declared order that matches, then a result that \<open>scoreOne\<close> returns has
  \<open>strongHit = p\<close>, and the patterns after \<open>p\<close> are not evaluated: replacing \<open>post\<close> by
  any other sequence \<open>post'\<close>, matching, not matching or malformed, gives the same result.
\<close>

theorem strong_signal_first_match_wins:
  assumes "orEmpty (patterns (strongSignals rs)) = pre @ p # post"
    and "list_all (\<lambda>q. \<not> matches E q (combinedText it)) pre"
    and "matches E p (combinedText it)"
    and "scoreOne E it rs = Inr res"
  shows "strongHit res = p \<and>
         scoreOne E it (rs\<lparr>strongSignals := \<lparr>patterns = Some (pre @ p # post')\<rparr>\<rparr>) = Inr res"
proof -
  have sl: "strongLoop E (pre @ p # post) (combinedText it) = Inr (strongHit res)"
    using scoreOne_Inr(1) [OF assms(4)] assms(1) by simp
  have "list_all (compiles E) pre" by (rule strongLoop_compiled [OF sl assms(2)])
  with assms(2) have pre: "list_all (\<lambda>q. compiles E q \<and> \<not> matches E q (combinedText it)) pre"
    by (simp add: list_all_iff)
  have a: "strongLoop E (pre @ p # rest) (combinedText it) = Inr p" for rest
    using strongLoop_skip [OF pre] strongLoop_hit [OF assms(3)] by simp
  have "strongLoop E (orEmpty (patterns (strongSignals rs))) (combinedText it) = Inr p"
    using a assms(1) by simp
  moreover from this have "strongLoop E (orEmpty (patterns (strongSignals rs))) (combinedText it) =
      strongLoop E (pre @ p # post') (combinedText it)" using a by simp
  ultimately show ?thesis
    using scoreOne_Inr(1) [OF assms(4)] scoreOne_strong_cong [of E rs it "pre @ p # post'"] assms(4)
    by simp
qed

theorem strong_signal_first_match_wins_witness:
  "orEmpty (patterns (strongSignals (strongRules [''SQL'', ''XSS'', ''CVE'']))) =
     [''SQL''] @ ''XSS'' # [''CVE''] \<and>
   list_all (\<lambda>q. \<not> matches sampleJs q (combinedText secItem)) [''SQL''] \<and>
   matches sampleJs ''XSS'' (combinedText secItem) \<and>
   matches sampleJs ''CVE'' (combinedText secItem) \<and>
   scoreOne sampleJs secItem (strongRules [''SQL'', ''XSS'', ''CVE'']) =
     Inr \<lparr>adopt = True, score = Fin 0, strongHit = ''XSS'', tags = [], hits = []\<rparr> \<and>
   \<not> compiles sampleJs ''('' \<and>
   scoreOne sampleJs secItem
     ((strongRules [''SQL'', ''XSS'', ''CVE''])
        \<lparr>strongSignals := \<lparr>patterns = Some ([''SQL''] @ ''XSS'' # [''(''])\<rparr>\<rparr>) =
     Inr \<lparr>adopt = True, score = Fin 0, strongHit = ''XSS'', tags = [], hits = []\<rparr>"
proof -
  have h1: "orEmpty (patterns (strongSignals (strongRules [''SQL'', ''XSS'', ''CVE'']))) =
      [''SQL''] @ ''XSS'' # [''CVE'']"
    by (simp add: strongRules_def)
  have h2: "list_all (\<lambda>q. \<not> matches sampleJs q (combinedText secItem)) [''SQL'']"
    by code_simp
  have h3: "matches sampleJs ''XSS'' (combinedText secItem)" by code_simp
  have h3': "matches sampleJs ''CVE'' (combinedText secItem)" by code_simp
  have h4: "scoreOne sampleJs secItem (strongRules [''SQL'', ''XSS'', ''CVE'']) =
     Inr \<lparr>adopt = True, score = Fin 0, strongHit = ''XSS'', tags = [], hits = []\<rparr>" by code_simp
  have h5: "\<not> compiles sampleJs ''(''" by code_simp
  from strong_signal_first_match_wins [OF h1 h2 h3 h4, of "[''('']"] h1 h2 h3 h3' h4 h5
  show ?thesis by simp
qed

section \<open>The empty string as a strong-signal pattern\<close>

text \<open>
  C1, evaluated where it fails. The strong-signal patterns are the empty pattern followed by
  \<open>CVE\<close>; both match the combined text of the item, whose score \<open>0\<close> is below the threshold
  \<open>8\<close>. The scan stops at the empty pattern and records it, \<open>Boolean\<close> of the empty string
  is false, and the item is not adopted although strong-signal patterns match.
\<close>

theorem empty_strong_pattern_not_adopted:
  "matches sampleJs [] (combinedText cveItem) \<and>
   matches sampleJs ''CVE'' (combinedText cveItem) \<and>
   scoreOne sampleJs cveItem (strongRules ['''', ''CVE'']) =
     Inr \<lparr>adopt = False, score = Fin 0, strongHit = [], tags = [], hits = []\<rparr>"
  by code_simp

text \<open>
  C9 as stated fails when a pattern before the empty one matches: with the patterns \<open>CVE\<close>
  and then the empty pattern, the recorded strong signal is \<open>CVE\<close> and the item is adopted
  with a score below the threshold.
\<close>

theorem empty_pattern_after_match_counterexample:
  "[] \<in> set (orEmpty (patterns (strongSignals (strongRules [''CVE'', '''']))))  \<and>
   matches sampleJs [] (combinedText cveItem) \<and>
   scoreOne sampleJs cveItem (strongRules [''CVE'', '''']) =
     Inr \<lparr>adopt = True, score = Fin 0, strongHit = ''CVE'', tags = [], hits = []\<rparr> \<and>
   \<not> jge (Fin 0) (thresholdOf sampleJs (strongRules [''CVE'', '''']))"
  by code_simp

text \<open>
  C9, amended. When the empty pattern is among the strong-signal patterns, no pattern before
  it matches the combined text, and the empty pattern matches it, a result that \<open>scoreOne\<close>
  returns has the empty string as \<open>strongHit\<close>, exactly as when nothing matched, and
  \<open>adopt\<close> is \<open>score >= threshold\<close>.
\<close>

theorem empty_pattern_first_match:
  assumes "scoreOne E it rs = Inr res"
    and "orEmpty (patterns (strongSignals rs)) = pre @ [] # post"
    and "list_all (\<lambda>q. \<not> matches E q (combinedText it)) pre"
    and "matches E [] (combinedText it)"
  shows "strongHit res = [] \<and> adopt res = jge (score res) (thresholdOf E rs)"
proof -
  have sl: "strongLoop E (pre @ [] # post) (combinedText it) = Inr (strongHit res)"
    using scoreOne_Inr(1) [OF assms(1)] assms(2) by simp
  have "list_all (compiles E) pre" by (rule strongLoop_compiled [OF sl assms(3)])
  with assms(3) have "list_all (\<lambda>q. compiles E q \<and> \<not> matches E q (combinedText it)) pre"
    by (simp add: list_all_iff)
  from strongLoop_skip [OF this] strongLoop_hit [OF assms(4)] sl
  have "strongHit res = []" by simp
  with scoreOne_Inr(5) [OF assms(1)] show ?thesis by simp
qed

theorem empty_pattern_first_match_witness:
  "scoreOne sampleJs cveItem (strongRules [''SQL'', '''', ''CVE'']) =
     Inr \<lparr>adopt = False, score = Fin 0, strongHit = [], tags = [], hits = []\<rparr> \<and>
   orEmpty (patterns (strongSignals (strongRules [''SQL'', '''', ''CVE'']))) =
     [''SQL''] @ [] # [''CVE''] \<and>
   list_all (\<lambda>q. \<not> matches sampleJs q (combinedText cveItem)) [''SQL''] \<and>
   matches sampleJs [] (combinedText cveItem) \<and>
   \<not> jge (Fin 0) (thresholdOf sampleJs (strongRules [''SQL'', '''', ''CVE'']))"
proof -
  have h1: "scoreOne sampleJs cveItem (strongRules [''SQL'', '''', ''CVE'']) =
     Inr \<lparr>adopt = False, score = Fin 0, strongHit = [], tags = [], hits = []\<rparr>" by code_simp
  have h2: "orEmpty (patterns (strongSignals (strongRules [''SQL'', '''', ''CVE'']))) =
      [''SQL''] @ [] # [''CVE'']"
    by (simp add: strongRules_def)
  have h3: "list_all (\<lambda>q. \<not> matches sampleJs q (combinedText cveItem)) [''SQL'']" by code_simp
  have h4: "matches sampleJs [] (combinedText cveItem)" by code_simp
  from empty_pattern_first_match [OF h1 h2 h3 h4] h1 h2 h3 h4 show ?thesis by simp
qed

section \<open>Malformed pattern text\<close>

lemma pickLoop_Inl:
  "it \<in> set items \<Longrightarrow> scoreOne E it rs = Inl e \<Longrightarrow> pickLoop E rs items picked = Inl SyntaxError"
proof (induction items arbitrary: picked)
  case Nil
  then show ?case by simp
next
  case (Cons x items)
  show ?case
  proof (cases "scoreOne E x rs")
    case (Inl e')
    then show ?thesis by (simp add: error_is_SyntaxError [of e'])
  next
    case (Inr res)
    with Cons.prems have "it \<in> set items" by auto
    from Cons.IH [OF this Cons.prems(2)] Inr show ?thesis by simp
  qed
qed

text \<open>
  C3 as stated fails: patterns are compiled while an item is scored, not when the rules are
  loaded. A run whose rule set holds the malformed pattern \<open>(\<close> after a strong-signal
  pattern that matches scores and adopts its item, and a run with no candidate item ends
  normally although a text keyword is malformed.
\<close>

theorem malformed_pattern_counterexample:
  "\<not> compiles sampleJs ''('' \<and>
   ''('' \<in> set (orEmpty (patterns (strongSignals (strongRules [''CVE'', ''('']))))  \<and>
   pickLoop sampleJs (strongRules [''CVE'', ''('']) [cveItem] [] =
     Inr [(cveItem, \<lparr>adopt = True, score = Fin 0, strongHit = ''CVE'', tags = [], hits = []\<rparr>)] \<and>
   ''('' \<in> set (eagerPatterns badTextRules) \<and>
   pickLoop sampleJs badTextRules [] [] = Inr []"
  by code_simp

text \<open>
  C3, amended. If a text-keyword, path or guide-mapping pattern is malformed, or a
  strong-signal pattern is malformed and no strong-signal pattern before it matches the
  item's combined text, then \<open>scoreOne\<close> throws on the item, and a run whose candidates
  include the item ends with that error instead of a list of picked items.
\<close>

theorem malformed_pattern_aborts:
  assumes "\<not> list_all (compiles E) (eagerPatterns rs) \<or>
           (\<exists>pre bad post. orEmpty (patterns (strongSignals rs)) = pre @ bad # post \<and>
              \<not> compiles E bad \<and>
              list_all (\<lambda>q. \<not> matches E q (combinedText it)) pre)"
    and "it \<in> set items"
  shows "scoreOne E it rs = Inl SyntaxError \<and> pickLoop E rs items picked = Inl SyntaxError"
proof -
  have "scoreOne E it rs = Inl SyntaxError"
  proof (cases "list_all (compiles E) (eagerPatterns rs)")
    case False
    then show ?thesis by (simp add: scoreOne_Inl)
  next
    case True
    with assms(1) obtain pre bad post
      where ps: "orEmpty (patterns (strongSignals rs)) = pre @ bad # post"
        and bad: "\<not> compiles E bad"
        and pre: "list_all (\<lambda>q. \<not> matches E q (combinedText it)) pre"
      by blast
    from strongLoop_malformed [OF bad pre, of post] ps
    have "strongLoop E (orEmpty (patterns (strongSignals rs))) (combinedText it) = Inl SyntaxError"
      by simp
    then show ?thesis by (simp add: scoreOne_Inl)
  qed
  with pickLoop_Inl [OF assms(2) this] show ?thesis by simp
qed

theorem malformed_pattern_aborts_witness:
  "\<not> list_all (compiles sampleJs) (eagerPatterns badTextRules) \<and>
   exItem \<in> set [cveItem, exItem] \<and>
   scoreOne sampleJs exItem badTextRules = Inl SyntaxError \<and>
   pickLoop sampleJs badTextRules [cveItem, exItem] [] = Inl SyntaxError \<and>
   orEmpty (patterns (strongSignals (strongRules [''SQL'', ''('']))) = [''SQL''] @ ''('' # [] \<and>
   \<not> compiles sampleJs ''('' \<and>
   list_all (\<lambda>q. \<not> matches sampleJs q (combinedText cveItem)) [''SQL''] \<and>
   scoreOne sampleJs cveItem (strongRules [''SQL'', ''('']) = Inl SyntaxError \<and>
   pickLoop sampleJs (strongRules [''SQL'', ''('']) [cveItem] [] = Inl SyntaxError"
proof -
  have h1: "\<not> list_all (compiles sampleJs) (eagerPatterns badTextRules)" by code_simp
  have h2: "exItem \<in> set [cveItem, exItem]" by simp
  have h3: "orEmpty (patterns (strongSignals (strongRules [''SQL'', ''('']))) = [''SQL''] @ ''('' # []"
    by (simp add: strongRules_def)
  have h4: "\<not> compiles sampleJs ''(''" by code_simp
  have h5: "list_all (\<lambda>q. \<not> matches sampleJs q (combinedText cveItem)) [''SQL'']"
    by code_simp
  have h6: "cveItem \<in> set [cveItem]" by simp
  have a: "scoreOne sampleJs exItem badTextRules = Inl SyntaxError \<and>
      pickLoop sampleJs badTextRules [cveItem, exItem] [] = Inl SyntaxError"
    by (rule malformed_pattern_aborts [OF disjI1 [OF h1] h2])
  have b: "scoreOne sampleJs cveItem (strongRules [''SQL'', ''('']) = Inl SyntaxError \<and>
      pickLoop sampleJs (strongRules [''SQL'', ''('']) [cveItem] [] = Inl SyntaxError"
    by (rule malformed_pattern_aborts [OF disjI2 h6]) (use h3 h4 h5 in blast)
  from a b h1 h2 h3 h4 h5 show ?thesis by simp
qed

section \<open>The score by kind of rule, and the trail by kind of hit\<close>

lemma map_w_allHitsOf:
  "map w (allHitsOf E it rs) =
     labelWeightsOf E (orEmpty (labelWeights (scoring rs))) (labels it) @
     textWeightsOf E (orEmpty (textKeywordWeights (scoring rs))) (combinedText it) @
     pathWeightsOf E (orEmpty (pathWeights (scoring rs))) (files it) @
     guideWeightsOf E (orEmpty (securityGuideMapping rs)) (combinedText it) (files it)"
  by (simp add: allHitsOf_def labelHitsOf_def textHitsOf_def pathHitsOf_def guideHitsOf_def
      labelWeightsOf_def textWeightsOf_def pathWeightsOf_def guideWeightsOf_def
      labelHit_def textHit_def pathHit_def guideHit_def o_def case_prod_unfold map_concat
      map_replicate_const)

lemma score_weights:
  assumes "scoreOne E it rs = Inr res"
  shows "score res =
     foldl (jadd E) (Fin 0)
       (labelWeightsOf E (orEmpty (labelWeights (scoring rs))) (labels it) @
        textWeightsOf E (orEmpty (textKeywordWeights (scoring rs))) (combinedText it) @
        pathWeightsOf E (orEmpty (pathWeights (scoring rs))) (files it) @
        guideWeightsOf E (orEmpty (securityGuideMapping rs)) (combinedText it) (files it))"
proof -
  have "score res = foldl (jadd E) (Fin 0) (map w (allHitsOf E it rs))"
    using scoreOne_Inr(2,3) [OF assms] by (simp add: sumWeights_def foldl_map)
  then show ?thesis by (simp only: map_w_allHitsOf)
qed

lemma type_labelHitsOf: "h \<in> set (labelHitsOf E lw ls) \<Longrightarrow> type h = ''label''"
  by (auto simp: labelHitsOf_def labelHit_def)

lemma type_textHitsOf: "h \<in> set (textHitsOf E tw txt) \<Longrightarrow> type h = ''text''"
  by (auto simp: textHitsOf_def textHit_def)

lemma type_pathHitsOf: "h \<in> set (pathHitsOf E pw fs) \<Longrightarrow> type h = ''path''"
  by (auto simp: pathHitsOf_def pathHit_def)

lemma type_guideHitsOf: "h \<in> set (guideHitsOf E ms txt fs) \<Longrightarrow> type h = ''guide''"
  by (auto simp: guideHitsOf_def guideHit_def)

lemma filter_all: "(\<And>x. x \<in> set xs \<Longrightarrow> P x) \<Longrightarrow> filter P xs = xs"
  by (induction xs) simp_all

lemma filter_none: "(\<And>x. x \<in> set xs \<Longrightarrow> \<not> P x) \<Longrightarrow> filter P xs = []"
  by (induction xs) simp_all

lemma label_kind:
  "filter (\<lambda>h. type h = ''label'') (allHitsOf E it rs) =
     labelHitsOf E (orEmpty (labelWeights (scoring rs))) (labels it)"
  unfolding allHitsOf_def filter_append
  by (simp add: filter_all type_labelHitsOf filter_none type_textHitsOf type_pathHitsOf
      type_guideHitsOf)

lemma text_kind:
  "filter (\<lambda>h. type h = ''text'') (allHitsOf E it rs) =
     textHitsOf E (orEmpty (textKeywordWeights (scoring rs))) (combinedText it)"
  unfolding allHitsOf_def filter_append
  by (simp add: filter_all type_labelHitsOf filter_none type_textHitsOf type_pathHitsOf
      type_guideHitsOf)

lemma path_kind:
  "filter (\<lambda>h. type h = ''path'') (allHitsOf E it rs) =
     pathHitsOf E (orEmpty (pathWeights (scoring rs))) (files it)"
  unfolding allHitsOf_def filter_append
  by (simp add: filter_all type_labelHitsOf filter_none type_textHitsOf type_pathHitsOf
      type_guideHitsOf)

lemma guide_kind:
  "filter (\<lambda>h. type h = ''guide'') (allHitsOf E it rs) =
     guideHitsOf E (orEmpty (securityGuideMapping rs)) (combinedText it) (files it)"
  unfolding allHitsOf_def filter_append
  by (simp add: filter_all type_labelHitsOf filter_none type_textHitsOf type_pathHitsOf
      type_guideHitsOf)

section \<open>Label, text-keyword and path contributions\<close>

lemma labelWeight_falsy:
  "map_of lw l = None \<or> (\<exists>v. map_of lw l = Some v \<and> \<not> truthy (Number E v)) \<Longrightarrow>
   \<not> truthy (labelWeight E lw l)"
proof (cases "map_of lw l")
  case None
  then show ?thesis by (simp add: labelWeight_def)
next
  case (Some v)
  assume "map_of lw l = None \<or> (\<exists>v. map_of lw l = Some v \<and> \<not> truthy (Number E v))"
  with Some have "\<not> truthy (Number E v)" by simp
  with Some show ?thesis by (cases v) (simp_all add: labelWeight_def)
qed

lemma labelHitsOf_removeAll:
  "\<not> truthy (labelWeight E lw l) \<Longrightarrow> labelHitsOf E lw (removeAll l ls) = labelHitsOf E lw ls"
  by (induction ls) (auto simp: labelHitsOf_def)

lemma scoreOne_labels_cong:
  "labelHitsOf E (orEmpty (labelWeights (scoring rs))) ls =
   labelHitsOf E (orEmpty (labelWeights (scoring rs))) (labels it) \<Longrightarrow>
   scoreOne E (it\<lparr>labels := ls\<rparr>) rs = scoreOne E it rs"
  by (simp add: scoreOne_def Let_def labelLoop_eq combinedText_def cong: sum.case_cong)

text \<open>
  C7. A label whose entry in \<open>labelWeights\<close> is absent, or whose weight is falsy as a
  number (\<open>0\<close>, and an unparsable value as well), leaves no label hit on the trail, and
  removing it from the item's labels leaves the whole result unchanged, the score included.
  The label hits are exactly those of the labels with a truthy weight, one per occurrence
  and in the order of the labels, each carrying its weight; the score is what \<open>+=\<close> makes
  of \<open>0\<close> and the weights of these labels, one addition per occurrence, followed by the
  weights of the other kinds of rule.
\<close>
theorem zero_or_unlisted_label_is_silent:
  assumes "scoreOne E it rs = Inr res"
    and "map_of (orEmpty (labelWeights (scoring rs))) l = None \<or>
         (\<exists>v. map_of (orEmpty (labelWeights (scoring rs))) l = Some v \<and> \<not> truthy (Number E v))"
  shows "\<not> list_ex (\<lambda>h. type h = ''label'' \<and> what h = l) (hits res) \<and>
         scoreOne E (it\<lparr>labels := removeAll l (labels it)\<rparr>) rs = Inr res \<and>
         filter (\<lambda>h. type h = ''label'') (hits res) =
           map (\<lambda>k. labelHit k (labelWeight E (orEmpty (labelWeights (scoring rs))) k))
               (filter (\<lambda>k. truthy (labelWeight E (orEmpty (labelWeights (scoring rs))) k)) (labels it)) \<and>
         score res =
           foldl (jadd E) (Fin 0)
             (map (labelWeight E (orEmpty (labelWeights (scoring rs))))
                  (filter (\<lambda>k. truthy (labelWeight E (orEmpty (labelWeights (scoring rs))) k))
                          (labels it)) @
              textWeightsOf E (orEmpty (textKeywordWeights (scoring rs))) (combinedText it) @
              pathWeightsOf E (orEmpty (pathWeights (scoring rs))) (files it) @
              guideWeightsOf E (orEmpty (securityGuideMapping rs)) (combinedText it) (files it))"
proof -
  let ?lw = "orEmpty (labelWeights (scoring rs))"
  have f: "\<not> truthy (labelWeight E ?lw l)" by (rule labelWeight_falsy [OF assms(2)])
  have k: "filter (\<lambda>h. type h = ''label'') (hits res) = labelHitsOf E ?lw (labels it)"
    using scoreOne_Inr(2) [OF assms(1)] by (simp add: label_kind)
  have "\<not> list_ex (\<lambda>h. what h = l) (labelHitsOf E ?lw (labels it))"
    using f by (auto simp: labelHitsOf_def labelHit_def list_ex_iff)
  then have a: "\<not> list_ex (\<lambda>h. type h = ''label'' \<and> what h = l) (hits res)"
    unfolding k [symmetric] by (auto simp: list_ex_iff)
  have b: "scoreOne E (it\<lparr>labels := removeAll l (labels it)\<rparr>) rs = Inr res"
    using scoreOne_labels_cong [OF labelHitsOf_removeAll [OF f]] assms(1) by simp
  have c: "filter (\<lambda>h. type h = ''label'') (hits res) =
           map (\<lambda>k. labelHit k (labelWeight E ?lw k)) (filter (\<lambda>k. truthy (labelWeight E ?lw k)) (labels it))"
    using k by (simp add: labelHitsOf_def)
  from a b c score_weights [OF assms(1)] show ?thesis by (simp add: labelWeightsOf_def)
qed


theorem zero_or_unlisted_label_is_silent_witness:
  "scoreOne sampleJs labItem labRules =
     Inr \<lparr>adopt = False, score = Fin 5, strongHit = [], tags = [],
          hits = [labelHit ''security'' (Fin 5)]\<rparr> \<and>
   map_of (orEmpty (labelWeights (scoring labRules))) ''docs'' = Some (JNum (Fin 0)) \<and>
   \<not> truthy (Number sampleJs (JNum (Fin 0))) \<and>
   map_of (orEmpty (labelWeights (scoring labRules))) ''misc'' = None \<and>
   scoreOne sampleJs (labItem\<lparr>labels := removeAll ''docs'' (labels labItem)\<rparr>) labRules =
     Inr \<lparr>adopt = False, score = Fin 5, strongHit = [], tags = [],
          hits = [labelHit ''security'' (Fin 5)]\<rparr> \<and>
   scoreOne sampleJs (labItem\<lparr>labels := removeAll ''misc'' (labels labItem)\<rparr>) labRules =
     Inr \<lparr>adopt = False, score = Fin 5, strongHit = [], tags = [],
          hits = [labelHit ''security'' (Fin 5)]\<rparr>"
proof -
  let ?res = "\<lparr>adopt = False, score = Fin 5, strongHit = [], tags = [],
          hits = [labelHit ''security'' (Fin 5)]\<rparr>"
  have h1: "scoreOne sampleJs labItem labRules = Inr ?res" by code_simp
  have h2: "map_of (orEmpty (labelWeights (scoring labRules))) ''docs'' = Some (JNum (Fin 0))"
    by code_simp
  have h3: "\<not> truthy (Number sampleJs (JNum (Fin 0)))" by simp
  have h4: "map_of (orEmpty (labelWeights (scoring labRules))) ''misc'' = None" by code_simp
  have d: "map_of (orEmpty (labelWeights (scoring labRules))) ''docs'' = None \<or>
      (\<exists>v. map_of (orEmpty (labelWeights (scoring labRules))) ''docs'' = Some v \<and>
           \<not> truthy (Number sampleJs v))"
    using h2 h3 by simp
  from zero_or_unlisted_label_is_silent [OF h1 d]
       zero_or_unlisted_label_is_silent [OF h1 disjI1 [OF h4]] h1 h2 h3 h4
  show ?thesis by simp
qed

lemma filter_key:
  "distinct (map fst xs) \<Longrightarrow> (p, v) \<in> set xs \<Longrightarrow> filter (\<lambda>(q, u). q = p) xs = [(p, v)]"
proof (induction xs)
  case Nil
  then show ?case by simp
next
  case (Cons x xs)
  obtain q u where x: "x = (q, u)" by (cases x)
  show ?case
  proof (cases "q = p")
    case True
    with Cons.prems x have "p \<notin> fst ` set xs" by simp
    then have "filter (\<lambda>(q, u). q = p) xs = []"
      by (auto simp: filter_empty_conv image_iff)
    moreover from Cons.prems x True \<open>p \<notin> fst ` set xs\<close> have "u = v"
      by (auto simp: image_iff)
    ultimately show ?thesis using x True by simp
  next
    case False
    with Cons.prems x have "(p, v) \<in> set xs" "distinct (map fst xs)" by auto
    from Cons.IH [OF this(2) this(1)] x False show ?thesis by simp
  qed
qed

lemma what_textHitsOf:
  assumes "distinct (map fst tw)" and "(p, v) \<in> set tw"
  shows "filter (\<lambda>h. what h = p) (textHitsOf E tw txt) =
         (if matches E p txt then [textHit p (numberOr0 E v)] else [])"
proof -
  have "filter (\<lambda>h. what h = p) (textHitsOf E tw txt) =
        map (\<lambda>(q, u). textHit q (numberOr0 E u))
            (filter (\<lambda>(q, u). matches E q txt) (filter (\<lambda>(q, u). q = p) tw))"
    by (simp add: textHitsOf_def filter_map o_def case_prod_unfold textHit_def conj_commute)
  also have "\<dots> = (if matches E p txt then [textHit p (numberOr0 E v)] else [])"
    by (simp add: filter_key [OF assms])
  finally show ?thesis .
qed

lemma what_pathHitsOf_none:
  "p \<notin> fst ` set pw \<Longrightarrow> filter (\<lambda>h. what h = p) (pathHitsOf E pw fs) = []"
  by (auto simp: pathHitsOf_def pathHit_def filter_empty_conv image_iff)

lemma pathHitsOf_Cons:
  "pathHitsOf E ((q, u) # pw) fs =
     map (\<lambda>f. pathHit q f (numberOr0 E u)) (filter (matches E q) fs) @ pathHitsOf E pw fs"
  by (simp add: pathHitsOf_def)

lemma what_pathHitsOf:
  "distinct (map fst pw) \<Longrightarrow> (p, v) \<in> set pw \<Longrightarrow>
   filter (\<lambda>h. what h = p) (pathHitsOf E pw fs) =
     map (\<lambda>f. pathHit p f (numberOr0 E v)) (filter (matches E p) fs)"
proof (induction pw)
  case Nil
  then show ?case by simp
next
  case (Cons x pw)
  obtain q u where x: "x = (q, u)" by (cases x)
  show ?case
  proof (cases "q = p")
    case True
    with Cons.prems x have n: "p \<notin> fst ` set pw" by simp
    with Cons.prems x True have "u = v" by (auto simp: image_iff)
    with x True what_pathHitsOf_none [OF n, of E fs] show ?thesis
      by (simp add: pathHitsOf_Cons filter_map o_def pathHit_def)
  next
    case False
    with Cons.prems x have "(p, v) \<in> set pw" "distinct (map fst pw)" by auto
    from Cons.IH [OF this(2) this(1)] x False show ?thesis
      by (simp add: pathHitsOf_Cons filter_map o_def pathHit_def)
  qed
qed

lemma filter_kind_what:
  "filter (\<lambda>h. type h = k \<and> what h = p) hs = filter (\<lambda>h. what h = p) (filter (\<lambda>h. type h = k) hs)"
  by (simp add: conj_commute)

text \<open>
  C5. For an entry \<open>(p, v)\<close> of \<open>textKeywordWeights\<close> (an object has each key once), the
  trail holds exactly one text hit for \<open>p\<close> when \<open>p\<close> matches the combined text and none
  otherwise: the test is a single yes or no and does not count occurrences. The text hits are
  those of the matching entries in the order of the entries, and the score is what \<open>+=\<close>
  makes of the label weights followed by the weight of each matching entry, once, followed by
  the path and guide weights. The combined text is the title, two newlines and the body, an
  absent one being empty.
\<close>
theorem text_keyword_counts_once:
  assumes "scoreOne E it rs = Inr res"
    and "(p, v) \<in> set (orEmpty (textKeywordWeights (scoring rs)))"
    and "distinct (map fst (orEmpty (textKeywordWeights (scoring rs))))"
  shows "filter (\<lambda>h. type h = ''text'' \<and> what h = p) (hits res) =
           (if matches E p (combinedText it) then [textHit p (numberOr0 E v)] else []) \<and>
         filter (\<lambda>h. type h = ''text'') (hits res) =
           map (\<lambda>(q, u). textHit q (numberOr0 E u))
               (filter (\<lambda>(q, u). matches E q (combinedText it))
                       (orEmpty (textKeywordWeights (scoring rs)))) \<and>
         score res =
           foldl (jadd E) (Fin 0)
             (labelWeightsOf E (orEmpty (labelWeights (scoring rs))) (labels it) @
              map (\<lambda>(q, u). numberOr0 E u)
                  (filter (\<lambda>(q, u). matches E q (combinedText it))
                          (orEmpty (textKeywordWeights (scoring rs)))) @
              pathWeightsOf E (orEmpty (pathWeights (scoring rs))) (files it) @
              guideWeightsOf E (orEmpty (securityGuideMapping rs)) (combinedText it) (files it)) \<and>
         combinedText it =
           (case title it of None \<Rightarrow> [] | Some s \<Rightarrow> s) @ [CHR 0x0A, CHR 0x0A] @
           (case body it of None \<Rightarrow> [] | Some s \<Rightarrow> s)"
proof -
  have k: "filter (\<lambda>h. type h = ''text'') (hits res) =
      textHitsOf E (orEmpty (textKeywordWeights (scoring rs))) (combinedText it)"
    using scoreOne_Inr(2) [OF assms(1)] by (simp add: text_kind)
  have a: "filter (\<lambda>h. type h = ''text'' \<and> what h = p) (hits res) =
           (if matches E p (combinedText it) then [textHit p (numberOr0 E v)] else [])"
    unfolding filter_kind_what k by (rule what_textHitsOf [OF assms(3) assms(2)])
  from a k score_weights [OF assms(1)] show ?thesis
    by (simp add: textHitsOf_def textWeightsOf_def combinedText_def)
qed

theorem text_keyword_counts_once_witness:
  "scoreOne sampleJs fullItem fullRules = Inr fullResult \<and>
   (''CVE'', JNum (Fin 6)) \<in> set (orEmpty (textKeywordWeights (scoring fullRules))) \<and>
   (''XSS'', JNum (Fin 3)) \<in> set (orEmpty (textKeywordWeights (scoring fullRules))) \<and>
   (''SQL'', JNum (Fin 4)) \<in> set (orEmpty (textKeywordWeights (scoring fullRules))) \<and>
   distinct (map fst (orEmpty (textKeywordWeights (scoring fullRules)))) \<and>
   matches sampleJs ''CVE'' (combinedText fullItem) \<and>
   matches sampleJs ''XSS'' (combinedText fullItem) \<and>
   \<not> matches sampleJs ''SQL'' (combinedText fullItem) \<and>
   \<not> matches sampleJs ''XSS'' ''CVE-2024-1111 and CVE-2024-2222'' \<and>
   \<not> matches sampleJs ''CVE'' ''Fix XSS in helper'' \<and>
   filter (\<lambda>h. type h = ''text'' \<and> what h = ''CVE'') (hits fullResult) = [textHit ''CVE'' (Fin 6)] \<and>
   filter (\<lambda>h. type h = ''text'' \<and> what h = ''XSS'') (hits fullResult) = [textHit ''XSS'' (Fin 3)] \<and>
   filter (\<lambda>h. type h = ''text'' \<and> what h = ''SQL'') (hits fullResult) = [] \<and>
   score fullResult = Fin 20"
proof -
  have h1: "scoreOne sampleJs fullItem fullRules = Inr fullResult" by code_simp
  have c: "(''CVE'', JNum (Fin 6)) \<in> set (orEmpty (textKeywordWeights (scoring fullRules)))"
    and x: "(''XSS'', JNum (Fin 3)) \<in> set (orEmpty (textKeywordWeights (scoring fullRules)))"
    and q: "(''SQL'', JNum (Fin 4)) \<in> set (orEmpty (textKeywordWeights (scoring fullRules)))"
    and d: "distinct (map fst (orEmpty (textKeywordWeights (scoring fullRules))))"
    by (simp_all add: fullRules_def)
  have m1: "matches sampleJs ''CVE'' (combinedText fullItem)" by code_simp
  have m2: "matches sampleJs ''XSS'' (combinedText fullItem)" by code_simp
  have m3: "\<not> matches sampleJs ''SQL'' (combinedText fullItem)" by code_simp
  have m4: "\<not> matches sampleJs ''XSS'' ''CVE-2024-1111 and CVE-2024-2222''" by code_simp
  have m5: "\<not> matches sampleJs ''CVE'' ''Fix XSS in helper''" by code_simp
  have n: "numberOr0 sampleJs (JNum (Fin 6)) = Fin 6" "numberOr0 sampleJs (JNum (Fin 3)) = Fin 3"
    by (simp_all add: numberOr0_def)
  have v: "score fullResult = Fin 20" by (simp add: fullResult_def)
  from text_keyword_counts_once [OF h1 c d] text_keyword_counts_once [OF h1 x d]
       text_keyword_counts_once [OF h1 q d] h1 c x q d m1 m2 m3 m4 m5 n v
  show ?thesis by simp
qed

text \<open>
  C4. For an entry \<open>(p, v)\<close> of \<open>pathWeights\<close> (an object has each key once), the path hits
  for \<open>p\<close> are one per occurrence in the file list that \<open>p\<close> matches, in the order of the
  list and with duplicates kept, each carrying its file; the score is what \<open>+=\<close> makes of
  the label and text weights followed by the weight of each path entry, as many times as the
  entry has matching occurrences, followed by the guide weights.
\<close>
theorem path_weight_counts_every_file:
  assumes "scoreOne E it rs = Inr res"
    and "(p, v) \<in> set (orEmpty (pathWeights (scoring rs)))"
    and "distinct (map fst (orEmpty (pathWeights (scoring rs))))"
  shows "filter (\<lambda>h. type h = ''path'' \<and> what h = p) (hits res) =
           map (\<lambda>f. pathHit p f (numberOr0 E v)) (filter (matches E p) (files it)) \<and>
         filter (\<lambda>h. type h = ''path'') (hits res) =
           concat (map (\<lambda>(q, u). map (\<lambda>f. pathHit q f (numberOr0 E u))
                                      (filter (matches E q) (files it)))
                       (orEmpty (pathWeights (scoring rs)))) \<and>
         score res =
           foldl (jadd E) (Fin 0)
             (labelWeightsOf E (orEmpty (labelWeights (scoring rs))) (labels it) @
              textWeightsOf E (orEmpty (textKeywordWeights (scoring rs))) (combinedText it) @
              concat (map (\<lambda>(q, u). replicate (length (filter (matches E q) (files it)))
                                               (numberOr0 E u))
                          (orEmpty (pathWeights (scoring rs)))) @
              guideWeightsOf E (orEmpty (securityGuideMapping rs)) (combinedText it) (files it))"
proof -
  have k: "filter (\<lambda>h. type h = ''path'') (hits res) =
      pathHitsOf E (orEmpty (pathWeights (scoring rs))) (files it)"
    using scoreOne_Inr(2) [OF assms(1)] by (simp add: path_kind)
  have a: "filter (\<lambda>h. type h = ''path'' \<and> what h = p) (hits res) =
           map (\<lambda>f. pathHit p f (numberOr0 E v)) (filter (matches E p) (files it))"
    unfolding filter_kind_what k by (rule what_pathHitsOf [OF assms(3) assms(2)])
  from a k score_weights [OF assms(1)] show ?thesis
    by (simp add: pathHitsOf_def pathWeightsOf_def)
qed

theorem path_weight_counts_every_file_witness:
  "scoreOne sampleJs libItem libRules =
     Inr \<lparr>adopt = False, score = Fin 5, strongHit = [], tags = [],
          hits = [pathHit ''lib/'' ''lib/a'' (Fin 2), pathHit ''lib/'' ''lib/b'' (Fin 2),
                  pathHit ''lib/'' ''lib/a'' (Fin 2), pathHit ''doc'' ''doc/x'' (Fin (-1))]\<rparr> \<and>
   (''lib/'', JNum (Fin 2)) \<in> set (orEmpty (pathWeights (scoring libRules))) \<and>
   distinct (map fst (orEmpty (pathWeights (scoring libRules)))) \<and>
   filter (matches sampleJs ''lib/'') (files libItem) = [''lib/a'', ''lib/b'', ''lib/a''] \<and>
   filter (\<lambda>h. type h = ''path'' \<and> what h = ''lib/'')
     (hits \<lparr>adopt = False, score = Fin 5, strongHit = [], tags = [],
          hits = [pathHit ''lib/'' ''lib/a'' (Fin 2), pathHit ''lib/'' ''lib/b'' (Fin 2),
                  pathHit ''lib/'' ''lib/a'' (Fin 2), pathHit ''doc'' ''doc/x'' (Fin (-1))]\<rparr>) =
     [pathHit ''lib/'' ''lib/a'' (Fin 2), pathHit ''lib/'' ''lib/b'' (Fin 2),
      pathHit ''lib/'' ''lib/a'' (Fin 2)]"
proof -
  let ?res = "\<lparr>adopt = False, score = Fin 5, strongHit = [], tags = [],
          hits = [pathHit ''lib/'' ''lib/a'' (Fin 2), pathHit ''lib/'' ''lib/b'' (Fin 2),
                  pathHit ''lib/'' ''lib/a'' (Fin 2), pathHit ''doc'' ''doc/x'' (Fin (-1))]\<rparr>"
  have h1: "scoreOne sampleJs libItem libRules = Inr ?res" by code_simp
  have h2: "(''lib/'', JNum (Fin 2)) \<in> set (orEmpty (pathWeights (scoring libRules)))"
    by (simp add: libRules_def weightRules_def)
  have h3: "distinct (map fst (orEmpty (pathWeights (scoring libRules))))"
    by (simp add: libRules_def weightRules_def)
  have h4: "filter (matches sampleJs ''lib/'') (files libItem) = [''lib/a'', ''lib/b'', ''lib/a'']"
    by code_simp
  have n: "numberOr0 sampleJs (JNum (Fin 2)) = Fin 2" by (simp add: numberOr0_def)
  from path_weight_counts_every_file [OF h1 h2 h3] h1 h2 h3 h4 n show ?thesis by simp
qed

section \<open>Entries of weight zero\<close>

lemma truthy_numberOr0: "truthy (numberOr0 E v) = truthy (Number E v)"
  by (simp add: numberOr0_def)

lemma numberOr0_falsy: "\<not> truthy (Number E v) \<Longrightarrow> numberOr0 E v = Fin 0"
  by (simp add: numberOr0_def)

lemma textHitsOf_drop:
  "textHitsOf E (filter (\<lambda>(p, v). truthy (Number E v)) tw) txt =
   filter (\<lambda>h. truthy (w h)) (textHitsOf E tw txt)"
  by (induction tw) (auto simp: textHitsOf_def textHit_def truthy_numberOr0)

lemma pathHitsOf_drop:
  "pathHitsOf E (filter (\<lambda>(p, v). truthy (Number E v)) pw) fs =
   filter (\<lambda>h. truthy (w h)) (pathHitsOf E pw fs)"
proof (induction pw)
  case Nil
  then show ?case by (simp add: pathHitsOf_def)
next
  case (Cons x pw)
  obtain q u where x: "x = (q, u)" by (cases x)
  show ?case
  proof (cases "truthy (Number E u)")
    case True
    then have "filter (\<lambda>h. truthy (w h)) (map (\<lambda>f. pathHit q f (numberOr0 E u)) (filter (matches E q) fs))
        = map (\<lambda>f. pathHit q f (numberOr0 E u)) (filter (matches E q) fs)"
      by (simp add: filter_map o_def pathHit_def truthy_numberOr0)
    with True x Cons.IH show ?thesis by (simp add: pathHitsOf_Cons)
  next
    case False
    then have "filter (\<lambda>h. truthy (w h)) (map (\<lambda>f. pathHit q f (numberOr0 E u)) (filter (matches E q) fs))
        = []"
      by (simp add: filter_map o_def pathHit_def truthy_numberOr0)
    with False x Cons.IH show ?thesis by (simp add: pathHitsOf_Cons)
  qed
qed

lemma labelHitsOf_truthy:
  "filter (\<lambda>h. truthy (w h)) (labelHitsOf E lw ls) = labelHitsOf E lw ls"
  by (rule filter_all) (auto simp: labelHitsOf_def labelHit_def)

lemma guideHitsOf_truthy:
  "filter (\<lambda>h. truthy (w h)) (guideHitsOf E ms txt fs) = guideHitsOf E ms txt fs"
  by (rule filter_all) (auto simp: guideHitsOf_def guideHit_def)

lemma allHitsOf_drop:
  "allHitsOf E it (dropZeroWeights E rs) = filter (\<lambda>h. truthy (w h)) (allHitsOf E it rs)"
  by (simp add: allHitsOf_def dropZeroWeights_def textHitsOf_drop pathHitsOf_drop
      labelHitsOf_truthy guideHitsOf_truthy)

lemma allHitsOf_truthy_or_zero:
  "list_all (\<lambda>h. truthy (w h) \<or> w h = Fin 0) (allHitsOf E it rs)"
  by (auto simp: allHitsOf_def labelHitsOf_def textHitsOf_def pathHitsOf_def guideHitsOf_def
      labelHit_def textHit_def pathHit_def guideHit_def list_all_iff numberOr0_def
      split: if_splits)

lemma foldl_jadd_drop_zero:
  "list_all (\<lambda>h. truthy (w h) \<or> w h = Fin 0) hs \<Longrightarrow>
   foldl (\<lambda>a h. jadd E a (w h)) s (filter (\<lambda>h. truthy (w h)) hs) =
   foldl (\<lambda>a h. jadd E a (w h)) s hs"
  by (induction hs arbitrary: s) (auto simp: jadd_zero)

lemma list_all_keys_filter:
  "list_all P (map fst xs) \<Longrightarrow> list_all P (map fst (filter Q xs))"
  by (induction xs) auto

lemma eagerPatterns_drop:
  "list_all (compiles E) (eagerPatterns rs) \<Longrightarrow>
   list_all (compiles E) (eagerPatterns (dropZeroWeights E rs))"
  by (simp add: eagerPatterns_def dropZeroWeights_def list_all_keys_filter)

lemma scoreOne_drop:
  assumes "scoreOne E it rs = Inr res"
  shows "scoreOne E it (dropZeroWeights E rs) =
         Inr (res\<lparr>hits := filter (\<lambda>h. truthy (w h)) (hits res)\<rparr>)"
proof -
  let ?rs = "dropZeroWeights E rs"
  have ok: "list_all (compiles E) (eagerPatterns rs)"
    and sl: "strongLoop E (orEmpty (patterns (strongSignals rs))) (combinedText it) \<noteq> Inl SyntaxError"
    using assms scoreOne_Inl [of E it rs SyntaxError] by auto
  have sl': "strongLoop E (orEmpty (patterns (strongSignals ?rs))) (combinedText it) =
      strongLoop E (orEmpty (patterns (strongSignals rs))) (combinedText it)"
    by (simp add: dropZeroWeights_def)
  have "scoreOne E it ?rs \<noteq> Inl SyntaxError"
    using scoreOne_Inl [of E it ?rs SyntaxError] sl sl' eagerPatterns_drop [OF ok] by simp
  then obtain res' where r': "scoreOne E it ?rs = Inr res'"
    by (cases "scoreOne E it ?rs") (simp_all add: error_is_SyntaxError)
  have h: "hits res' = filter (\<lambda>h. truthy (w h)) (hits res)"
    using scoreOne_Inr(2) [OF r'] scoreOne_Inr(2) [OF assms] by (simp add: allHitsOf_drop)
  have s: "score res' = score res"
    using scoreOne_Inr(3) [OF r'] scoreOne_Inr(2,3) [OF assms] h
    by (simp add: sumWeights_def foldl_jadd_drop_zero [OF allHitsOf_truthy_or_zero])
  have sh: "strongHit res' = strongHit res"
    using scoreOne_Inr(1) [OF r'] scoreOne_Inr(1) [OF assms] sl' by simp
  have t: "tags res' = tags res"
    using scoreOne_Inr(4) [OF r'] scoreOne_Inr(4) [OF assms] by (simp add: dropZeroWeights_def)
  have "thresholdOf E ?rs = thresholdOf E rs" by (simp add: thresholdOf_def dropZeroWeights_def)
  then have a: "adopt res' = adopt res"
    using scoreOne_Inr(5) [OF r'] scoreOne_Inr(5) [OF assms] s sh by simp
  from h s sh t a have "res' = res\<lparr>hits := filter (\<lambda>h. truthy (w h)) (hits res)\<rparr>"
    by (cases res, cases res') simp
  with r' show ?thesis by simp
qed

text \<open>
  C10. A text-keyword entry whose weight is falsy as a number (\<open>0\<close>, or unparsable and so
  coerced to \<open>0\<close>) and whose pattern matches the combined text has a text hit of weight
  \<open>0\<close> on the trail, and such a path entry has a path hit of weight \<open>0\<close> for every
  file occurrence it matches. The score is unchanged by them: without these entries
  \<open>scoreOne\<close> returns the same result except that the hits of falsy weight are gone from
  the trail. A label hit or a guide hit, in contrast, always has a truthy weight: a falsy
  label weight or \<open>scoreBonus\<close> gives neither a contribution nor a hit.
\<close>
theorem zero_weight_pattern_still_hits:
  assumes "scoreOne E it rs = Inr res"
  shows "list_all (\<lambda>(p, v). textHit p (Fin 0) \<in> set (hits res))
           (filter (\<lambda>(p, v). \<not> truthy (Number E v) \<and> matches E p (combinedText it))
                   (orEmpty (textKeywordWeights (scoring rs)))) \<and>
         list_all (\<lambda>(p, v). list_all (\<lambda>f. pathHit p f (Fin 0) \<in> set (hits res))
                                      (filter (matches E p) (files it)))
           (filter (\<lambda>(p, v). \<not> truthy (Number E v)) (orEmpty (pathWeights (scoring rs)))) \<and>
         list_all (\<lambda>h. truthy (w h))
           (filter (\<lambda>h. type h = ''label'' \<or> type h = ''guide'') (hits res)) \<and>
         scoreOne E it (dropZeroWeights E rs) =
           Inr (res\<lparr>hits := filter (\<lambda>h. truthy (w h)) (hits res)\<rparr>)"
proof -
  have h: "hits res = allHitsOf E it rs" by (rule scoreOne_Inr(2) [OF assms])
  have a: "list_all (\<lambda>(p, v). textHit p (Fin 0) \<in> set (hits res))
           (filter (\<lambda>(p, v). \<not> truthy (Number E v) \<and> matches E p (combinedText it))
                   (orEmpty (textKeywordWeights (scoring rs))))"
    unfolding h allHitsOf_def textHitsOf_def list_all_iff
    by (force simp: numberOr0_falsy image_iff)
  have b: "list_all (\<lambda>(p, v). list_all (\<lambda>f. pathHit p f (Fin 0) \<in> set (hits res))
                                      (filter (matches E p) (files it)))
           (filter (\<lambda>(p, v). \<not> truthy (Number E v)) (orEmpty (pathWeights (scoring rs))))"
    unfolding h allHitsOf_def pathHitsOf_def list_all_iff
    by (force simp: numberOr0_falsy image_iff)
  have c: "list_all (\<lambda>h. truthy (w h))
           (filter (\<lambda>h. type h = ''label'' \<or> type h = ''guide'') (hits res))"
    unfolding h allHitsOf_def list_all_iff
    by (auto simp: labelHitsOf_def labelHit_def guideHitsOf_def guideHit_def
        textHitsOf_def textHit_def pathHitsOf_def pathHit_def)
  from a b c scoreOne_drop [OF assms] show ?thesis by simp
qed

theorem zero_weight_pattern_still_hits_witness:
  "scoreOne sampleJs zeroItem zeroRules =
     Inr \<lparr>adopt = False, score = Fin 0, strongHit = [], tags = [''xss''],
          hits = [textHit ''CVE'' (Fin 0), pathHit ''lib/'' ''lib/a'' (Fin 0)]\<rparr> \<and>
   filter (\<lambda>(p, v). \<not> truthy (Number sampleJs v) \<and> matches sampleJs p (combinedText zeroItem))
          (orEmpty (textKeywordWeights (scoring zeroRules))) = [(''CVE'', JStr ''high'')] \<and>
   filter (\<lambda>(p, v). \<not> truthy (Number sampleJs v)) (orEmpty (pathWeights (scoring zeroRules))) =
     [(''lib/'', JNum (Fin 0))] \<and>
   filter (matches sampleJs ''lib/'') (files zeroItem) = [''lib/a''] \<and>
   scoreOne sampleJs zeroItem (dropZeroWeights sampleJs zeroRules) =
     Inr \<lparr>adopt = False, score = Fin 0, strongHit = [], tags = [''xss''], hits = []\<rparr>"
proof -
  let ?res = "\<lparr>adopt = False, score = Fin 0, strongHit = [], tags = [''xss''],
          hits = [textHit ''CVE'' (Fin 0), pathHit ''lib/'' ''lib/a'' (Fin 0)]\<rparr>"
  have h1: "scoreOne sampleJs zeroItem zeroRules = Inr ?res" by code_simp
  have h2: "filter (\<lambda>(p, v). \<not> truthy (Number sampleJs v) \<and> matches sampleJs p (combinedText zeroItem))
          (orEmpty (textKeywordWeights (scoring zeroRules))) = [(''CVE'', JStr ''high'')]"
    by code_simp
  have h3: "filter (\<lambda>(p, v). \<not> truthy (Number sampleJs v)) (orEmpty (pathWeights (scoring zeroRules))) =
     [(''lib/'', JNum (Fin 0))]" by code_simp
  have h4: "filter (matches sampleJs ''lib/'') (files zeroItem) = [''lib/a'']" by code_simp
  from zero_weight_pattern_still_hits [OF h1] h1 h2 h3 h4 show ?thesis
    by (simp add: textHit_def pathHit_def)
qed

section \<open>Defaults of the rule configuration\<close>

lemma nullish_nullish: "nullish (Some (nullish x d)) d = nullish x d"
proof (cases x)
  case None
  then show ?thesis by (cases d) simp_all
next
  case (Some v)
  then show ?thesis by (cases v; cases d) simp_all
qed

lemma explicitMapping_fields:
  "tag (explicitMapping m) = tag m"
  "scoreBonus (explicitMapping m) = Some (nullish (scoreBonus m) (JNum (Fin 0)))"
  "keywordPatterns (explicitMapping m) = Some (orEmpty (keywordPatterns m))"
  "paths (explicitMapping m) = Some (orEmpty (paths m))"
  by (simp_all add: explicitMapping_def)

lemma guideLoop_explicit:
  "guideLoop E (map explicitMapping ms) txt fs st = guideLoop E ms txt fs st"
proof (induction ms arbitrary: st)
  case Nil
  then show ?case by simp
next
  case (Cons m ms)
  obtain sc ts hs where st: "st = (sc, ts, hs)" by (cases st)
  show ?case
    unfolding st
    by (simp add: explicitMapping_fields nullish_nullish Let_def Cons.IH
        cong: sum.case_cong if_cong)
qed

lemma scoreOne_cong:
  assumes "orEmpty (patterns (strongSignals rs')) = orEmpty (patterns (strongSignals rs))"
    and "orEmpty (labelWeights (scoring rs')) = orEmpty (labelWeights (scoring rs))"
    and "orEmpty (textKeywordWeights (scoring rs')) = orEmpty (textKeywordWeights (scoring rs))"
    and "orEmpty (pathWeights (scoring rs')) = orEmpty (pathWeights (scoring rs))"
    and "\<And>st. guideLoop E (orEmpty (securityGuideMapping rs')) (combinedText it) (files it) st =
              guideLoop E (orEmpty (securityGuideMapping rs)) (combinedText it) (files it) st"
    and "nullish (threshold (decision rs')) (JNum (Fin 8)) =
         nullish (threshold (decision rs)) (JNum (Fin 8))"
  shows "scoreOne E it rs' = scoreOne E it rs"
proof -
  have t: "compileWeightedRegexMap E (textKeywordWeights (scoring rs')) =
           compileWeightedRegexMap E (textKeywordWeights (scoring rs))"
    using assms(3) by (simp add: compileWeightedRegexMap_def)
  have p: "compileWeightedRegexMap E (pathWeights (scoring rs')) =
           compileWeightedRegexMap E (pathWeights (scoring rs))"
    using assms(4) by (simp add: compileWeightedRegexMap_def)
  show ?thesis
    unfolding scoreOne_def Let_def assms(1) assms(2) t p assms(5) assms(6) ..
qed

text \<open>
  C8. Under the rule set that \<open>readRules\<close> makes of a document, \<open>scoreOne\<close> returns
  for every item what it returns under the rule set with every missing section and property
  written out as empty, and \<open>main\<close> reads the same window. For a document without any
  section the window is \<open>{hours, 24}\<close>, the threshold is \<open>8\<close> and every item scores
  \<open>0\<close> with an empty trail and is not adopted.
\<close>
theorem missing_sections_default:
  "scoreOne E it (readRules loaded) = scoreOne E it (explicitRules loaded) \<and>
   windowHours E (readRules loaded) = windowHours E (explicitRules loaded) \<and>
   readRules None = explicitRules None \<and>
   readRules (Some emptyDoc) = explicitRules None \<and>
   window (explicitRules None) = Some \<lparr>wtype = ''hours'', wvalue = Some (JNum (Fin 24))\<rparr> \<and>
   windowHours E (explicitRules None) = Fin 24 \<and>
   thresholdOf E (explicitRules None) = Fin 8 \<and>
   scoreOne E it (explicitRules None) =
     Inr \<lparr>adopt = False, score = Fin 0, strongHit = [], tags = [], hits = []\<rparr>"
proof -
  have a: "scoreOne E it (readRules loaded) = scoreOne E it (explicitRules loaded)"
  proof (rule scoreOne_cong)
    show "orEmpty (patterns (strongSignals (readRules loaded))) =
          orEmpty (patterns (strongSignals (explicitRules loaded)))"
      by (simp add: readRules_def explicitRules_def Let_def split: option.splits)
    show "orEmpty (labelWeights (scoring (readRules loaded))) =
          orEmpty (labelWeights (scoring (explicitRules loaded)))"
      by (simp add: readRules_def explicitRules_def Let_def split: option.splits)
    show "orEmpty (textKeywordWeights (scoring (readRules loaded))) =
          orEmpty (textKeywordWeights (scoring (explicitRules loaded)))"
      by (simp add: readRules_def explicitRules_def Let_def split: option.splits)
    show "orEmpty (pathWeights (scoring (readRules loaded))) =
          orEmpty (pathWeights (scoring (explicitRules loaded)))"
      by (simp add: readRules_def explicitRules_def Let_def split: option.splits)
    show "guideLoop E (orEmpty (securityGuideMapping (readRules loaded))) (combinedText it) (files it) st =
          guideLoop E (orEmpty (securityGuideMapping (explicitRules loaded))) (combinedText it) (files it) st"
      for st
      by (simp add: readRules_def explicitRules_def Let_def guideLoop_explicit split: option.splits)
    show "nullish (threshold (decision (readRules loaded))) (JNum (Fin 8)) =
          nullish (threshold (decision (explicitRules loaded))) (JNum (Fin 8))"
      by (simp add: readRules_def explicitRules_def Let_def nullish_nullish split: option.splits)
  qed
  have b: "windowHours E (readRules loaded) = windowHours E (explicitRules loaded)"
    by (simp add: windowHours_def readRules_def explicitRules_def Let_def nullish_nullish
        split: option.splits)
  have c: "readRules None = explicitRules None" "readRules (Some emptyDoc) = explicitRules None"
    by (simp_all add: readRules_def explicitRules_def emptyDoc_def)
  have d: "window (explicitRules None) = Some \<lparr>wtype = ''hours'', wvalue = Some (JNum (Fin 24))\<rparr>"
    "windowHours E (explicitRules None) = Fin 24" "thresholdOf E (explicitRules None) = Fin 8"
    by (simp_all add: explicitRules_def emptyDoc_def windowHours_def thresholdOf_def)
  have e: "scoreOne E it (explicitRules None) =
     Inr \<lparr>adopt = False, score = Fin 0, strongHit = [], tags = [], hits = []\<rparr>"
    by (simp add: scoreOne_def explicitRules_def emptyDoc_def compileWeightedRegexMap_def Let_def
        labelLoop_eq labelHitsOf_def labelWeight_def)
  from a b c d e show ?thesis by simp
qed

theorem missing_sections_default_witness:
  "scoreOne sampleJs exItem (readRules (Some partialDoc)) =
     Inr \<lparr>adopt = False, score = Fin 5, strongHit = [], tags = [],
          hits = [labelHit ''security'' (Fin 5)]\<rparr> \<and>
   scoreOne sampleJs exItem (explicitRules (Some partialDoc)) =
     Inr \<lparr>adopt = False, score = Fin 5, strongHit = [], tags = [],
          hits = [labelHit ''security'' (Fin 5)]\<rparr> \<and>
   windowHours sampleJs (readRules (Some partialDoc)) = Fin 24"
proof -
  have h: "scoreOne sampleJs exItem (readRules (Some partialDoc)) =
     Inr \<lparr>adopt = False, score = Fin 5, strongHit = [], tags = [],
          hits = [labelHit ''security'' (Fin 5)]\<rparr>" by code_simp
  have w: "windowHours sampleJs (readRules (Some partialDoc)) = Fin 24" by code_simp
  from missing_sections_default [of sampleJs exItem "Some partialDoc"] h w
  show ?thesis by simp
qed

end
